theory Spec2Isabelle
  imports Main "HOL-Library.Char_ord" "HOL-Library.List_Lexorder" "HOL-Library.Word"
begin

section \<open>The coordination service, as the gateway's handlers call it\<close>

text \<open>
  The gateway keeps no state of its own: every handler of \<^verbatim>\<open>gate.go\<close> and of the status
  handler works on the etcd key-value store through \<^verbatim>\<open>clientv3\<close>. The store is an
  external collaborator; it is modelled here by what its client interface documents:
  revisioned keys, range reads with sort and limit, a conditional transaction, and leases.
  Keys and values are byte strings (\<^typ>\<open>string\<close>, ordered bytewise); revisions are
  64-bit counters that start at 1 and are modelled as \<^typ>\<open>int\<close>.
\<close>

record KeyValue =
  Key :: string
  CreateRevision :: int
  ModRevision :: int
  Version :: int
  Value :: string
  Lease :: int

record LeaseInfo =
  LeaseID :: int
  LeaseTTL :: "64 word"
  Renewals :: nat

text \<open>
  A call to the service either goes through (\<open>NoFault\<close>), is lost before the service
  acts on it (\<open>Lost\<close>: nothing changes and the client gets the error), or is carried out
  while its answer is lost (\<open>Unacked\<close>: the change is made and the client still gets the
  error). The faults that the next calls will meet are part of the client's state, one
  per call, in call order; when the list is used up every later call goes through.
\<close>

datatype fault = NoFault | Lost string | Unacked string

record Client =
  kvs :: "KeyValue list"
  revision :: int
  leases :: "LeaseInfo list"
  faults :: "fault list"

definition next_fault :: "Client \<Rightarrow> fault \<times> Client" where
  "next_fault c = (case faults c of [] \<Rightarrow> (NoFault, c) | f # fs \<Rightarrow> (f, c\<lparr>faults := fs\<rparr>))"

text \<open>
  \<open>answered c\<close>: the next call of the client goes through. \<open>after_call c\<close>: the client
  once that call has met its fault (or none).
\<close>

definition answered :: "Client \<Rightarrow> bool" where
  "answered c = (fst (next_fault c) = NoFault)"

definition after_call :: "Client \<Rightarrow> Client" where
  "after_call c = snd (next_fault c)"

definition lookup :: "KeyValue list \<Rightarrow> string \<Rightarrow> KeyValue option" where
  "lookup s k = find (\<lambda>kv. Key kv = k) s"

text \<open>
  A put at revision \<open>r\<close>: a new key is created at \<open>r\<close> with version 1; an existing key
  keeps its creation revision and gets the next version.
\<close>

definition put_kv :: "int \<Rightarrow> string \<Rightarrow> string \<Rightarrow> int \<Rightarrow> KeyValue list \<Rightarrow> KeyValue list" where
  "put_kv r k v l s =
     (case lookup s k of
        None \<Rightarrow> s @ [\<lparr>Key = k, CreateRevision = r, ModRevision = r, Version = 1, Value = v, Lease = l\<rparr>]
      | Some old \<Rightarrow>
          map (\<lambda>kv. if Key kv = k
                     then old\<lparr>ModRevision := r, Version := Version old + 1, Value := v, Lease := l\<rparr>
                     else kv) s)"

subsection \<open>Reads\<close>

datatype SortOrder = SortAscend | SortDescend

datatype SortTarget = SortByKey

datatype OpOption =
    WithKeysOnly
  | WithRange string
  | WithSort SortTarget SortOrder
  | WithLimit int
  | WithCountOnly
  | WithPrefix
  | WithLease int

datatype KeySel = OneKey | UpTo string | HasPrefix

record Op =
  op_sel :: KeySel
  op_limit :: int
  op_sort :: "SortOrder option"
  op_keysOnly :: bool
  op_countOnly :: bool
  op_lease :: int

definition plainOp :: Op where
  "plainOp = \<lparr>op_sel = OneKey, op_limit = 0, op_sort = None, op_keysOnly = False,
              op_countOnly = False, op_lease = 0\<rparr>"

fun applyOpt :: "OpOption \<Rightarrow> Op \<Rightarrow> Op" where
  "applyOpt WithKeysOnly op = op\<lparr>op_keysOnly := True\<rparr>"
| "applyOpt (WithRange e) op = op\<lparr>op_sel := UpTo e\<rparr>"
| "applyOpt (WithSort SortByKey ord) op = op\<lparr>op_sort := Some ord\<rparr>"
| "applyOpt (WithLimit n) op = op\<lparr>op_limit := n\<rparr>"
| "applyOpt WithCountOnly op = op\<lparr>op_countOnly := True\<rparr>"
| "applyOpt WithPrefix op = op\<lparr>op_sel := HasPrefix\<rparr>"
| "applyOpt (WithLease l) op = op\<lparr>op_lease := l\<rparr>"

definition applyOpts :: "OpOption list \<Rightarrow> Op" where
  "applyOpts opts = fold applyOpt opts plainOp"

text \<open>
  Which stored keys a read of \<open>key\<close> selects: the key itself, the half-open range
  \<open>[key, end)\<close>, or every key that starts with \<open>key\<close>.
\<close>

definition selected :: "Op \<Rightarrow> string \<Rightarrow> KeyValue \<Rightarrow> bool" where
  "selected op key kv =
     (case op_sel op of
        OneKey \<Rightarrow> Key kv = key
      | UpTo e \<Rightarrow> key \<le> Key kv \<and> Key kv < e
      | HasPrefix \<Rightarrow> take (length key) (Key kv) = key)"

record GetResponse =
  Kvs :: "KeyValue list"
  Count :: int
  More :: bool

text \<open>
  The answer to a read: the selected keys in key order (reversed for a descending sort),
  cut to the limit when the limit is positive; \<open>Count\<close> is the number of selected keys
  whatever the limit; a keys-only read blanks the values and a count-only read returns
  no keys.
\<close>

definition range_resp :: "KeyValue list \<Rightarrow> string \<Rightarrow> Op \<Rightarrow> GetResponse" where
  "range_resp s key op =
     (let hits = sort_key Key (filter (selected op key) s);
          ordered = (case op_sort op of Some SortDescend \<Rightarrow> rev hits | _ \<Rightarrow> hits);
          page = (if 0 < op_limit op then take (nat (op_limit op)) ordered else ordered)
      in \<lparr>Kvs = (if op_countOnly op then []
                  else map (\<lambda>kv. if op_keysOnly op then kv\<lparr>Value := []\<rparr> else kv) page),
          Count = int (length hits),
          More = (length page < length hits)\<rparr>)"

definition Get :: "Client \<Rightarrow> string \<Rightarrow> OpOption list \<Rightarrow> (string + GetResponse) \<times> Client" where
  "Get c key opts =
     (case next_fault c of
        (NoFault, c') \<Rightarrow> (Inr (range_resp (kvs c') key (applyOpts opts)), c')
      | (Lost e, c') \<Rightarrow> (Inl e, c')
      | (Unacked e, c') \<Rightarrow> (Inl e, c'))"

subsection \<open>Writes\<close>

definition do_put :: "Client \<Rightarrow> string \<Rightarrow> string \<Rightarrow> Op \<Rightarrow> Client" where
  "do_put c key val op =
     c\<lparr>kvs := put_kv (revision c + 1) key val (op_lease op) (kvs c), revision := revision c + 1\<rparr>"

definition Put :: "Client \<Rightarrow> string \<Rightarrow> string \<Rightarrow> OpOption list \<Rightarrow> string option \<times> Client" where
  "Put c key val opts =
     (case next_fault c of
        (NoFault, c') \<Rightarrow> (None, do_put c' key val (applyOpts opts))
      | (Lost e, c') \<Rightarrow> (Some e, c')
      | (Unacked e, c') \<Rightarrow> (Some e, do_put c' key val (applyOpts opts)))"

datatype CmpTarget = CreateRevisionOf string

datatype Cmp = Compare CmpTarget string int

datatype TxnOp = OpPut string string

record Txn =
  txn_If :: "Cmp list"
  txn_Then :: "TxnOp list"
  txn_Else :: "TxnOp list"

record TxnResponse =
  Succeeded :: bool

text \<open>The creation revision of a key that is not stored is 0.\<close>

definition createRevision :: "KeyValue list \<Rightarrow> string \<Rightarrow> int" where
  "createRevision s k = (case lookup s k of None \<Rightarrow> 0 | Some kv \<Rightarrow> CreateRevision kv)"

fun eval_cmp :: "KeyValue list \<Rightarrow> Cmp \<Rightarrow> bool" where
  "eval_cmp s (Compare (CreateRevisionOf k) rel n) =
     (if rel = ''='' then createRevision s k = n
      else if rel = ''!='' then createRevision s k \<noteq> n
      else if rel = ''>'' then createRevision s k > n
      else if rel = ''<'' then createRevision s k < n
      else False)"

fun apply_op :: "int \<Rightarrow> TxnOp \<Rightarrow> KeyValue list \<Rightarrow> KeyValue list" where
  "apply_op r (OpPut k v) s = put_kv r k v 0 s"

text \<open>
  A transaction is one atomic step of the store: the comparisons are evaluated on the
  store as it is, then all operations of the chosen branch are applied at one new
  revision.
\<close>

definition do_txn :: "Client \<Rightarrow> Txn \<Rightarrow> TxnResponse \<times> Client" where
  "do_txn c t =
     (let ok = list_all (eval_cmp (kvs c)) (txn_If t);
          ops = (if ok then txn_Then t else txn_Else t)
      in (\<lparr>Succeeded = ok\<rparr>,
          if ops = [] then c
          else c\<lparr>kvs := fold (apply_op (revision c + 1)) ops (kvs c), revision := revision c + 1\<rparr>))"

definition Commit :: "Client \<Rightarrow> Txn \<Rightarrow> (string + TxnResponse) \<times> Client" where
  "Commit c t =
     (case next_fault c of
        (NoFault, c') \<Rightarrow> (Inr (fst (do_txn c' t)), snd (do_txn c' t))
      | (Lost e, c') \<Rightarrow> (Inl e, c')
      | (Unacked e, c') \<Rightarrow> (Inl e, snd (do_txn c' t)))"

subsection \<open>Leases\<close>

text \<open>
  A granted lease gets the next free id. \<open>LeaseTTL\<close> is the duration the gateway asked
  for; \<open>Renewals\<close> counts the keepalives the service has received for the lease.
\<close>

definition do_grant :: "Client \<Rightarrow> 64 word \<Rightarrow> int \<times> Client" where
  "do_grant c ttl =
     (let leaseID = int (length (leases c)) + 1
      in (leaseID, c\<lparr>leases := leases c @ [\<lparr>LeaseID = leaseID, LeaseTTL = ttl, Renewals = 0\<rparr>]\<rparr>))"

definition Grant :: "Client \<Rightarrow> 64 word \<Rightarrow> (string + int) \<times> Client" where
  "Grant c ttl =
     (case next_fault c of
        (NoFault, c') \<Rightarrow> (Inr (fst (do_grant c' ttl)), snd (do_grant c' ttl))
      | (Lost e, c') \<Rightarrow> (Inl e, c')
      | (Unacked e, c') \<Rightarrow> (Inl e, snd (do_grant c' ttl)))"

definition do_renew :: "Client \<Rightarrow> int \<Rightarrow> Client" where
  "do_renew c leaseID =
     c\<lparr>leases := map (\<lambda>l. if LeaseID l = leaseID then l\<lparr>Renewals := Suc (Renewals l)\<rparr> else l)
                     (leases c)\<rparr>"

definition KeepAliveOnce :: "Client \<Rightarrow> int \<Rightarrow> string option \<times> Client" where
  "KeepAliveOnce c leaseID =
     (case next_fault c of
        (NoFault, c') \<Rightarrow> (None, do_renew c' leaseID)
      | (Lost e, c') \<Rightarrow> (Some e, c')
      | (Unacked e, c') \<Rightarrow> (Some e, do_renew c' leaseID))"

section \<open>The gateway\<close>

text \<open>
  \<^verbatim>\<open>type Gate struct\<close> of \<^verbatim>\<open>gate.go\<close>. \<open>LeaseTime\<close> is a \<^verbatim>\<open>time.Duration\<close>: a signed
  64-bit count of nanoseconds. The logger and the context carry nothing the handlers
  decide on and are left out.
\<close>

record Gate =
  ServerAddr :: string
  AutoFindAddr :: bool
  EtcdAddr :: "string list"
  NamePrefix :: string
  Name :: string
  Level :: string
  LeaseTime :: "64 word"

definition NodeName :: "Gate \<Rightarrow> string" where
  "NodeName g = NamePrefix g @ ''-'' @ Name g"

subsection \<open>Key layout\<close>

text \<open>
  Modelled from the spec: the path helpers and constants of the repository's
  \<^verbatim>\<open>model\<close> package (\<^verbatim>\<open>FullGlobalTaskPath\<close>, \<^verbatim>\<open>FullGlobalTaskStatePath\<close>,
  \<^verbatim>\<open>GlobalTaskPrefixState\<close>, \<^verbatim>\<open>FullGateNodePath\<close>, \<^verbatim>\<open>FullRuntimeNodePath\<close>,
  \<^verbatim>\<open>CanRun\<close>) are not among the source files. The spec's key layout gives them:
  \<^verbatim>\<open>/scheduler/gate/node/<name>\<close>, \<^verbatim>\<open>/scheduler/runtime/node/<name>\<close>,
  \<^verbatim>\<open>/scheduler/task/global/<taskName>\<close>, \<^verbatim>\<open>/scheduler/task/state/<taskName>\<close>, and the
  initial state \<^verbatim>\<open>CanRun\<close>.
\<close>

definition GlobalTaskPrefix :: string where
  "GlobalTaskPrefix = ''/scheduler/task/global/''"

definition GlobalTaskPrefixState :: string where
  "GlobalTaskPrefixState = ''/scheduler/task/state/''"

definition FullGlobalTaskPath :: "string \<Rightarrow> string" where
  "FullGlobalTaskPath taskName = GlobalTaskPrefix @ taskName"

definition FullGlobalTaskStatePath :: "string \<Rightarrow> string" where
  "FullGlobalTaskStatePath taskName = GlobalTaskPrefixState @ taskName"

definition FullGateNodePath :: "string \<Rightarrow> string" where
  "FullGateNodePath name = ''/scheduler/gate/node/'' @ name"

definition FullRuntimeNodePath :: "string \<Rightarrow> string" where
  "FullRuntimeNodePath name = ''/scheduler/runtime/node/'' @ name"

definition CanRun :: string where
  "CanRun = ''CanRun''"

subsection \<open>Responses\<close>

text \<open>
  What a handler leaves on its \<^verbatim>\<open>gin.Context\<close>. \<open>JSON status code message\<close> is
  \<^verbatim>\<open>c.JSON(status, gin.H{"code": code, "message": message})\<close>; \<open>Table status header rows\<close>
  is the text table of the status handler before rendering; \<open>Data status list\<close> is the
  status handler's JSON envelope. A handler that panics writes no response at all.
\<close>

record stateRsp =
  rsp_TaskID :: string
  rsp_TaskName :: string
  rsp_Action :: string
  rsp_RuntimeNode :: string
  rsp_InRuntime :: bool
  rsp_CreateTime :: string
  rsp_UpdateTime :: string
  rsp_Ip :: string

record taskStatusList =
  Total :: int
  Items :: "stateRsp list"
  StartKey :: string

datatype Response =
    JSON int int string
  | Table int "string list" "string list list"
  | Data int taskStatusList
  | NoBody

text \<open>
  A Go function either returns or panics. A handler that returns has left its response
  on the context (\<open>NoBody\<close> when it wrote nothing).
\<close>

datatype 'a outcome = Returned 'a | Panicked string

definition ok :: Response where
  "ok = JSON 200 0 []"

definition error :: "int \<Rightarrow> string \<Rightarrow> Response" where
  "error code msg = JSON 500 code msg"

subsection \<open>createTask\<close>

text \<open>
  \<^verbatim>\<open>model.Param\<close> as far as \<open>createTask\<close> reads it: the task name inside the executer
  part; the rest of the definition is opaque and only passes through \<^verbatim>\<open>json.Marshal\<close>.
\<close>

record Executer =
  TaskName :: string

record Param =
  Executer :: Executer
  Rest :: string

text \<open>
  The two messages of \<open>createTask\<close> that are not ASCII in the source, as their UTF-8
  bytes: the prefix of the commit-error message (its format string goes on with
  \<^verbatim>\<open>err :%v\<close>) and the message for a transaction whose guard did not hold.
\<close>

definition txn_error_prefix :: string where
  "txn_error_prefix =
     [CHR 0xE4, CHR 0xBA, CHR 0x8B, CHR 0xE5, CHR 0x8A, CHR 0xA1, CHR 0xE6, CHR 0x89, CHR 0xA7,
      CHR 0xE8, CHR 0xA1, CHR 0x8C, CHR 0xE5, CHR 0xA4, CHR 0xB1, CHR 0xE8, CHR 0xB4, CHR 0xA5]
     @ ''err :''"

definition txn_failed_msg :: string where
  "txn_failed_msg =
     [CHR 0xE4, CHR 0xBA, CHR 0x8B, CHR 0xE5, CHR 0x8A, CHR 0xA1,
      CHR 0xE5, CHR 0xA4, CHR 0xB1, CHR 0xE8, CHR 0xB4, CHR 0xA5]"

definition createTxn :: "string \<Rightarrow> string \<Rightarrow> string \<Rightarrow> Txn" where
  "createTxn globalTaskName globalTaskStateName all =
     \<lparr>txn_If = [Compare (CreateRevisionOf globalTaskName) ''='' 0],
      txn_Then = [OpPut globalTaskName all, OpPut globalTaskStateName CanRun],
      txn_Else = []\<rparr>"

text \<open>
  \<open>createTask marshal others c bound\<close>: \<open>bound\<close> is what \<^verbatim>\<open>c.ShouldBind(&req)\<close> gave
  (the error, or the request), \<open>marshal\<close> is \<^verbatim>\<open>json.Marshal\<close> on the request, and
  \<open>others\<close> is what other clients of the store do between this handler's read and its
  transaction: it takes the keys and the revision to what they are when the transaction
  arrives (\<open>Pair\<close> when no one else writes).

  The read's error is assigned and never looked at: the next statement is
  \<^verbatim>\<open>len(rsp.Kvs)\<close>, and a failed read returns a nil response, so the handler panics
  there with a nil dereference.
\<close>

definition createTask ::
  "(Param \<Rightarrow> string + string) \<Rightarrow> (KeyValue list \<Rightarrow> int \<Rightarrow> KeyValue list \<times> int) \<Rightarrow> Client
     \<Rightarrow> string + Param \<Rightarrow> Response outcome \<times> Client" where
  "createTask marshal others c bound =
     (case bound of
        Inl err \<Rightarrow> (Returned (error 500 (''createTask:'' @ err)), c)
      | Inr req \<Rightarrow>
          let globalTaskName = FullGlobalTaskPath (TaskName (Executer req));
              globalTaskStateName = FullGlobalTaskStatePath (TaskName (Executer req))
          in case Get c globalTaskName [WithKeysOnly] of
               (Inl err, c1) \<Rightarrow> (Panicked ''nil pointer dereference'', c1)
             | (Inr rsp, c1) \<Rightarrow>
                 if length (Kvs rsp) > 0
                 then (Returned (error 500 (''duplicate creation:'' @ globalTaskName)), c1)
                 else
                   (case marshal req of
                      Inl err \<Rightarrow> (Returned (error 500 (''marshal req:'' @ err)), c1)
                    | Inr all \<Rightarrow>
                        (case Commit (c1\<lparr>kvs := fst (others (kvs c1) (revision c1)),
                                          revision := snd (others (kvs c1) (revision c1))\<rparr>)
                                (createTxn globalTaskName globalTaskStateName all) of
                           (Inl err, c2) \<Rightarrow> (Returned (error 500 (txn_error_prefix @ err)), c2)
                         | (Inr txnRsp, c2) \<Rightarrow>
                             if \<not> Succeeded txnRsp
                             then (Returned (error 500 txn_failed_msg), c2)
                             else (Returned ok, c2))))"


text \<open>
  What the \<open>Then\<close> branch of the create transaction writes at revision \<open>r\<close>: the task
  definition, then the initial task state.
\<close>

definition created :: "int \<Rightarrow> string \<Rightarrow> string \<Rightarrow> KeyValue list \<Rightarrow> KeyValue list" where
  "created r taskName all s =
     put_kv r (FullGlobalTaskStatePath taskName) CanRun 0
       (put_kv r (FullGlobalTaskPath taskName) all 0 s)"

subsection \<open>deleteTask, updateTask, stopTask\<close>

text \<open>
  The three handlers have empty bodies in \<^verbatim>\<open>gate.go\<close>: they read nothing from the
  request, call nothing and write no response.
\<close>

definition deleteTask :: "Client \<Rightarrow> string \<Rightarrow> Response outcome \<times> Client" where
  "deleteTask c body = (Returned NoBody, c)"

definition updateTask :: "Client \<Rightarrow> string \<Rightarrow> Response outcome \<times> Client" where
  "updateTask c body = (Returned NoBody, c)"

definition stopTask :: "Client \<Rightarrow> string \<Rightarrow> Response outcome \<times> Client" where
  "stopTask c body = (Returned NoBody, c)"

subsection \<open>status\<close>

record StatusRequest =
  p_ID :: string
  p_StartKey :: string
  p_Limit :: int
  p_Sort :: string
  p_Format :: string

text \<open>
  Modelled from the spec: \<^verbatim>\<open>model.State\<close> and \<^verbatim>\<open>model.ValueToState\<close> are not among the
  source files. The spec's TaskState has the fields taskID, taskName, state, action,
  runtimeNode, inRuntime, createTime and updateTime, which are the fields the handler
  reads. The decoder is a parameter of the handler. Times are kept in their printed
  form.
\<close>

record State =
  s_TaskID :: string
  s_TaskName :: string
  s_State :: string
  s_Action :: string
  s_RuntimeNode :: string
  s_InRuntime :: bool
  s_CreateTime :: string
  s_UpdateTime :: string

definition title :: "string list" where
  "title = [''id'', ''taskName'', ''status'', ''action'', ''runtimeNode'', ''InRuntime'',
            ''createTime'', ''updateTime'', ''runtimeIP'']"

definition endGlobalTaskKey :: string where
  "endGlobalTaskKey =
     GlobalTaskPrefixState
     @ [CHR 0xFF, CHR 0xFF, CHR 0xFF, CHR 0xFF, CHR 0xFF, CHR 0xFF, CHR 0xFF, CHR 0xFF]"

text \<open>
  \<^verbatim>\<open>deepcopy.Copy(&status, &s).Do()\<close> copies the fields the two structs share by name;
  \<open>Ip\<close> has no counterpart in the state and keeps its zero value.
\<close>

definition copy_state :: "State \<Rightarrow> stateRsp" where
  "copy_state s =
     \<lparr>rsp_TaskID = s_TaskID s, rsp_TaskName = s_TaskName s, rsp_Action = s_Action s,
      rsp_RuntimeNode = s_RuntimeNode s, rsp_InRuntime = s_InRuntime s,
      rsp_CreateTime = s_CreateTime s, rsp_UpdateTime = s_UpdateTime s, rsp_Ip = []\<rparr>"

definition table_row :: "State \<Rightarrow> string \<Rightarrow> string list" where
  "table_row s ip =
     [s_TaskID s, s_TaskName s, s_State s, s_Action s, s_RuntimeNode s,
      (if s_InRuntime s then ''true'' else ''false''), s_CreateTime s, s_UpdateTime s, ip]"

text \<open>
  Modelled from the spec: \<^verbatim>\<open>error2\<close> is not among the source files; by the spec every
  handler-level error collapses to the uniform \<open>{code, message}\<close> response with a
  non-success status.
\<close>

definition error2 :: "int \<Rightarrow> string \<Rightarrow> Response" where
  "error2 code msg = JSON 500 code msg"

text \<open>
  The address of a task's runtime node: a point read of the node key; a missing node
  record leaves the address empty.
\<close>

definition runtime_ip :: "Client \<Rightarrow> State \<Rightarrow> (string + string) \<times> Client" where
  "runtime_ip c s =
     (if length (s_RuntimeNode s) > 0
      then (case Get c (s_RuntimeNode s) [] of
              (Inl err, c1) \<Rightarrow> (Inl err, c1)
            | (Inr resp, c1) \<Rightarrow>
                (Inr (case Kvs resp of [] \<Rightarrow> [] | kv # _ \<Rightarrow> Value kv), c1))
      else (Inr [], c))"

text \<open>
  The loop over the page: \<open>data\<close> collects the table rows and \<open>list\<close> the JSON items;
  the first state that does not decode, or the first failed node read, ends the handler
  with an error.
\<close>

fun status_loop ::
  "(string \<Rightarrow> string + State) \<Rightarrow> string \<Rightarrow> KeyValue list \<Rightarrow> Client \<Rightarrow> string list list
     \<Rightarrow> stateRsp list \<Rightarrow> (string + string list list \<times> stateRsp list) \<times> Client" where
  "status_loop ValueToState fmt [] c data list = (Inr (data, list), c)"
| "status_loop ValueToState fmt (kv # rest) c data list =
     (case ValueToState (Value kv) of
        Inl err \<Rightarrow> (Inl err, c)
      | Inr s \<Rightarrow>
          (case runtime_ip c s of
             (Inl err, c1) \<Rightarrow> (Inl err, c1)
           | (Inr ip, c1) \<Rightarrow>
               if fmt = ''table''
               then status_loop ValueToState fmt rest c1 (data @ [table_row s ip]) list
               else status_loop ValueToState fmt rest c1 data (list @ [copy_state s])))"

definition status ::
  "(string \<Rightarrow> string + State) \<Rightarrow> Client \<Rightarrow> string + StatusRequest
     \<Rightarrow> Response outcome \<times> Client" where
  "status ValueToState c bound =
     (case bound of
        Inl err \<Rightarrow> (Returned (error2 500 (''bind query:'' @ err)), c)
      | Inr p0 \<Rightarrow>
          let p = (if p_Limit p0 = 0 then p0\<lparr>p_Limit := 10\<rparr> else p0);
              startKey = (if p_ID p = [] \<and> p_StartKey p \<noteq> [] then p_StartKey p
                          else GlobalTaskPrefixState);
              sortOrder = (if take 1 (p_Sort p) = ''-'' then SortDescend else SortAscend)
          in case Get c startKey
                    [WithRange endGlobalTaskKey, WithSort SortByKey sortOrder, WithLimit (p_Limit p)] of
               (Inl err, c1) \<Rightarrow> (Returned (error2 500 err), c1)
             | (Inr resp, c1) \<Rightarrow>
                 (case Get c1 GlobalTaskPrefixState [WithCountOnly, WithPrefix] of
                    (Inl err2, c2) \<Rightarrow> (Returned (error2 500 err2), c2)
                  | (Inr resp2, c2) \<Rightarrow>
                      (case status_loop ValueToState (p_Format p) (Kvs resp) c2 [] [] of
                         (Inl err, c3) \<Rightarrow> (Returned (error2 500 err), c3)
                       | (Inr (data, list), c3) \<Rightarrow>
                           if p_Format p = ''table''
                           then (Returned (Table 200 title data), c3)
                           else if p_Format p = ''json''
                           then (Returned (Data 200
                                   \<lparr>Total = Count resp2, Items = list, StartKey = startKey\<rparr>), c3)
                           else (Returned NoBody, c3))))"

text \<open>
  Names for what the handler computes from a request and reads from the store: the limit
  after the default, the key its page is read from, the options of the page read, the
  stored records under the state prefix (what the count read counts), and the stored
  records in the range of a page read that starts at \<open>start\<close>.
\<close>

definition effective_limit :: "StatusRequest \<Rightarrow> int" where
  "effective_limit p = (if p_Limit p = 0 then 10 else p_Limit p)"

definition page_start :: "StatusRequest \<Rightarrow> string" where
  "page_start p = (if p_ID p = [] \<and> p_StartKey p \<noteq> [] then p_StartKey p else GlobalTaskPrefixState)"

definition page_opts :: "StatusRequest \<Rightarrow> OpOption list" where
  "page_opts p =
     [WithRange endGlobalTaskKey,
      WithSort SortByKey (if take 1 (p_Sort p) = ''-'' then SortDescend else SortAscend),
      WithLimit (effective_limit p)]"

definition state_records :: "KeyValue list \<Rightarrow> KeyValue list" where
  "state_records s =
     filter (\<lambda>kv. take (length GlobalTaskPrefixState) (Key kv) = GlobalTaskPrefixState) s"

definition records_from :: "string \<Rightarrow> KeyValue list \<Rightarrow> KeyValue list" where
  "records_from start s = filter (\<lambda>kv. start \<le> Key kv \<and> Key kv < endGlobalTaskKey) s"

text \<open>
  The records of a page: the stored records in the range of the page read, sorted by key,
  in reverse for a sort token that starts with \<open>-\<close>, cut to the limit in effect when
  that is positive. \<open>in_order p a b\<close>: record \<open>a\<close> may stand before record \<open>b\<close> in the
  order the request asks for.
\<close>

definition page_records :: "StatusRequest \<Rightarrow> KeyValue list \<Rightarrow> KeyValue list" where
  "page_records p s =
     (let hits = sort_key Key (records_from (page_start p) s);
          ordered = (if take 1 (p_Sort p) = ''-'' then rev hits else hits)
      in if 0 < effective_limit p then take (nat (effective_limit p)) ordered else ordered)"

definition in_order :: "StatusRequest \<Rightarrow> KeyValue \<Rightarrow> KeyValue \<Rightarrow> bool" where
  "in_order p a b = (if take 1 (p_Sort p) = ''-'' then Key b \<le> Key a else Key a \<le> Key b)"

text \<open>
  A caller that pages through the list as the spec describes: each request starts from
  the start key the previous response returned. \<open>consecutive_pages n\<close> gives the items
  of the first \<open>n\<close> pages.
\<close>

fun consecutive_pages ::
  "nat \<Rightarrow> (string \<Rightarrow> string + State) \<Rightarrow> Client \<Rightarrow> StatusRequest \<Rightarrow> stateRsp list list" where
  "consecutive_pages 0 ValueToState c p = []"
| "consecutive_pages (Suc n) ValueToState c p =
     (case status ValueToState c (Inr p) of
        (Returned (Data code l), c') \<Rightarrow>
          Items l # consecutive_pages n ValueToState c' (p\<lparr>p_StartKey := StartKey l\<rparr>)
      | _ \<Rightarrow> [])"

subsection \<open>Start-up and node registration\<close>

text \<open>
  Modelled from the spec: the helpers of the repository's \<^verbatim>\<open>utils\<close> package are not
  among the source files. By the spec's registerSelf, \<^verbatim>\<open>NewLease\<close> and
  \<^verbatim>\<open>NewLeaseWithKeepalive\<close> obtain a lease of the given time to live from the
  coordination service and fail when the service cannot be reached; the second also
  keeps the lease renewed for as long as the process lives. \<^verbatim>\<open>NewEtcdClient\<close> (the
  connection to the service, which can fail) and \<^verbatim>\<open>GetUnusedAddr\<close> (some free local
  address) are parameters of the functions that call them, and so are
  \<^verbatim>\<open>uuid.New().String()\<close> and the constant \<^verbatim>\<open>model.RuntimeKeepalive\<close>.
\<close>

definition NewLease :: "Client \<Rightarrow> 64 word \<Rightarrow> (string + int) \<times> Client" where
  "NewLease c ttl = Grant c ttl"

definition NewLeaseWithKeepalive :: "Client \<Rightarrow> 64 word \<Rightarrow> (string + int) \<times> Client" where
  "NewLeaseWithKeepalive c ttl = Grant c ttl"

definition Second :: "64 word" where
  "Second = 1000000000"

text \<open>
  \<open>init\<close> returns the gateway as it has set it up, together with the client or the
  error of \<^verbatim>\<open>NewEtcdClient\<close>. The comparison of the lease time is the signed one of
  \<^verbatim>\<open>time.Duration\<close>.
\<close>

definition init ::
  "64 word \<Rightarrow> string \<Rightarrow> (string list \<Rightarrow> string + Client) \<Rightarrow> Gate \<Rightarrow> Gate \<times> (string + Client)" where
  "init RuntimeKeepalive uuid NewEtcdClient r =
     (let r1 = (if Name r = [] then r\<lparr>Name := uuid\<rparr> else r);
          r2 = (if LeaseTime r1 <s RuntimeKeepalive
                then r1\<lparr>LeaseTime := RuntimeKeepalive + Second\<rparr> else r1)
      in (r2, NewEtcdClient (EtcdAddr r2)))"

definition getAddress :: "string \<Rightarrow> Gate \<Rightarrow> string" where
  "getAddress GetUnusedAddr r =
     (if ServerAddr r \<noteq> [] then ServerAddr r
      else if AutoFindAddr r then GetUnusedAddr
      else [])"

definition registerGateNode :: "string \<Rightarrow> Gate \<Rightarrow> Client \<Rightarrow> string option outcome \<times> Client" where
  "registerGateNode GetUnusedAddr r c =
     (let addr = getAddress GetUnusedAddr r
      in if addr = []
         then (Panicked ''The service startup address is empty, please set -s ip:port'', c)
         else
           (case NewLeaseWithKeepalive c (LeaseTime r) of
              (Inl err, c1) \<Rightarrow> (Returned (Some err), c1)
            | (Inr leaseID, c1) \<Rightarrow>
                (case Put c1 (FullGateNodePath (NodeName r)) (ServerAddr r) [WithLease leaseID] of
                   (err, c2) \<Rightarrow> (Returned err, c2))))"

text \<open>
  \<open>registerRuntimeWithKeepalive\<close> runs in a goroutine of its own. It is modelled in the
  two parts the session sees: the part up to the \<^verbatim>\<open>for range keepalive\<close> loop, after
  which the goroutine either has returned the lease error (\<open>Exited\<close>) or waits for ticks
  on the channel with its lease (\<open>Receiving\<close>); and the loop body run for one tick. The
  channel is never closed, so the goroutine never leaves the loop. The error of the put
  is overwritten by nothing and read by nothing.
\<close>

datatype goroutine = Receiving int | Exited "string option"

definition registerRuntimeWithKeepalive :: "Gate \<Rightarrow> string \<Rightarrow> Client \<Rightarrow> goroutine \<times> Client" where
  "registerRuntimeWithKeepalive r runtimeName c =
     (case NewLease c (LeaseTime r) of
        (Inl err, c1) \<Rightarrow> (Exited (Some err), c1)
      | (Inr leaseID, c1) \<Rightarrow>
          (Receiving leaseID,
           snd (Put c1 (FullRuntimeNodePath (NodeName r)) (ServerAddr r) [WithLease leaseID])))"

definition keepalive_tick :: "int \<Rightarrow> Client \<Rightarrow> Client" where
  "keepalive_tick leaseID c = snd (KeepAliveOnce c leaseID)"

subsection \<open>stream\<close>

record Whoami =
  WhoamiName :: string

text \<open>
  What \<^verbatim>\<open>con.ReadJSON\<close> returns, read after read: a message, or the error of a failed
  read or of a connection the worker closed.
\<close>

datatype read = Msg Whoami | ReadError string

text \<open>
  How a session stands when its reads are used up: the upgrade failed; the read loop has
  ended and the connection is closed; the handler waits in \<^verbatim>\<open>ReadJSON\<close> for the next
  message; or the handler is stuck in \<^verbatim>\<open>keepalive <- true\<close>, a send on an unbuffered
  channel that no goroutine receives from.
\<close>

datatype session = UpgradeFailed | Closed | Reading | Blocked

fun stream_loop :: "Gate \<Rightarrow> read list \<Rightarrow> goroutine option \<Rightarrow> Client \<Rightarrow> session \<times> Client" where
  "stream_loop r [] keepalive c = (Reading, c)"
| "stream_loop r (ReadError err # rest) keepalive c = (Closed, c)"
| "stream_loop r (Msg req # rest) None c =
     (case registerRuntimeWithKeepalive r (WhoamiName req) c of
        (g, c1) \<Rightarrow> stream_loop r rest (Some g) c1)"
| "stream_loop r (Msg req # rest) (Some (Receiving leaseID)) c =
     stream_loop r rest (Some (Receiving leaseID)) (keepalive_tick leaseID c)"
| "stream_loop r (Msg req # rest) (Some (Exited err)) c = (Blocked, c)"

definition stream :: "Gate \<Rightarrow> string option \<Rightarrow> read list \<Rightarrow> Client \<Rightarrow> session \<times> Client" where
  "stream r upgrade reads c =
     (case upgrade of
        Some err \<Rightarrow> (UpgradeFailed, c)
      | None \<Rightarrow> stream_loop r reads None c)"

subsection \<open>SubMain\<close>

text \<open>
  The process after start-up: aborted by a panic, or serving requests with the client it
  has set up. \<^verbatim>\<open>go r.registerGateNode()\<close> starts the registration in a goroutine: a
  panic there ends the whole process, and the error it returns has no receiver.
\<close>

datatype process = Aborted string | Serving Gate Client

definition SubMain ::
  "64 word \<Rightarrow> string \<Rightarrow> (string list \<Rightarrow> string + Client) \<Rightarrow> string \<Rightarrow> Gate \<Rightarrow> process" where
  "SubMain RuntimeKeepalive uuid NewEtcdClient GetUnusedAddr r =
     (case init RuntimeKeepalive uuid NewEtcdClient r of
        (r', Inl err) \<Rightarrow> Aborted err
      | (r', Inr c) \<Rightarrow>
          (case registerGateNode GetUnusedAddr r' c of
             (Panicked msg, c1) \<Rightarrow> Aborted msg
           | (Returned err, c1) \<Rightarrow> Serving r' c1))"

section \<open>Properties of createTask\<close>

lemma Get_failed:
  "faults c = f # fs \<Longrightarrow> f \<noteq> NoFault \<Longrightarrow>
   \<exists>e. Get c key opts = (Inl e, c\<lparr>faults := fs\<rparr>)"
  by (cases f) (simp_all add: Get_def next_fault_def)

lemma lookup_append_new:
  "lookup s k = None \<Longrightarrow> lookup (s @ [x]) k = (if Key x = k then Some x else None)"
  by (induction s) (auto simp: lookup_def)

lemma lookup_map_replace:
  "lookup s k = Some old \<Longrightarrow> Key new = k \<Longrightarrow>
   lookup (map (\<lambda>kv. if Key kv = k then new else kv) s) k = Some new"
  by (induction s) (auto simp: lookup_def split: if_splits)

lemma lookup_Some_Key: "lookup s k = Some kv \<Longrightarrow> Key kv = k"
  by (induction s) (auto simp: lookup_def split: if_splits)

lemma lookup_put_kv_same:
  "\<exists>kv. lookup (put_kv r k v l s) k = Some kv \<and> Key kv = k \<and> Value kv = v \<and> ModRevision kv = r
        \<and> Lease kv = l
        \<and> CreateRevision kv = (if createRevision s k = 0 \<and> lookup s k = None then r else createRevision s k)"
proof (cases "lookup s k")
  case None
  then show ?thesis
    by (simp add: put_kv_def lookup_append_new createRevision_def)
next
  case (Some old)
  then have "Key old = k" by (rule lookup_Some_Key)
  with Some show ?thesis
    by (simp add: put_kv_def lookup_map_replace createRevision_def)
qed

lemma lookup_put_kv_other:
  "k' \<noteq> k \<Longrightarrow> lookup (put_kv r k v l s) k' = lookup s k'"
proof (cases "lookup s k")
  case None
  assume "k' \<noteq> k"
  with None show ?thesis
    by (induction s) (auto simp: put_kv_def lookup_def split: if_splits option.splits)
next
  case (Some old)
  then have "Key old = k" by (rule lookup_Some_Key)
  moreover assume "k' \<noteq> k"
  ultimately have "lookup (map (\<lambda>kv. if Key kv = k
         then old\<lparr>ModRevision := r, Version := Version old + 1, Value := v, Lease := l\<rparr>
         else kv) s) k' = lookup s k'"
    by (induction s) (auto simp: lookup_def)
  with Some show ?thesis by (simp add: put_kv_def)
qed

lemma task_paths_differ: "FullGlobalTaskPath n \<noteq> FullGlobalTaskStatePath n"
  by (simp add: FullGlobalTaskPath_def FullGlobalTaskStatePath_def GlobalTaskPrefix_def
      GlobalTaskPrefixState_def)

lemma selected_OneKey: "op_sel op = OneKey \<Longrightarrow> selected op k = (\<lambda>kv. Key kv = k)"
  by (rule ext) (simp add: selected_def)

lemma sort_key_Nil_iff: "(sort_key f xs = []) = (xs = [])"
  by (metis length_0_conv length_sort)

lemma filter_Nil_find: "(filter P xs = []) = (find P xs = None)"
  by (induction xs) auto

lemma keys_only_hit:
  "(Kvs (range_resp s k (applyOpts [WithKeysOnly])) = []) = (lookup s k = None)"
  by (simp add: range_resp_def applyOpts_def plainOp_def selected_OneKey lookup_def Let_def
      sort_key_Nil_iff filter_Nil_find)

lemma created_both:
  "\<exists>d st. lookup (created r n all s) (FullGlobalTaskPath n) = Some d \<and> Value d = all
          \<and> ModRevision d = r
          \<and> lookup (created r n all s) (FullGlobalTaskStatePath n) = Some st \<and> Value st = CanRun
          \<and> ModRevision st = r"
proof -
  obtain d where d: "lookup (put_kv r (FullGlobalTaskPath n) all 0 s) (FullGlobalTaskPath n) = Some d"
    "Value d = all" "ModRevision d = r"
    using lookup_put_kv_same [of r "FullGlobalTaskPath n" all 0 s] by blast
  obtain st where st: "lookup (created r n all s) (FullGlobalTaskStatePath n) = Some st"
    "Value st = CanRun" "ModRevision st = r"
    using lookup_put_kv_same [of r "FullGlobalTaskStatePath n" CanRun 0
        "put_kv r (FullGlobalTaskPath n) all 0 s"]
    unfolding created_def by blast
  have "lookup (created r n all s) (FullGlobalTaskPath n) = Some d"
    unfolding created_def using d(1) task_paths_differ [of n]
    by (simp add: lookup_put_kv_other)
  with d st show ?thesis by blast
qed

lemma do_txn_createTxn:
  "do_txn c (createTxn (FullGlobalTaskPath n) (FullGlobalTaskStatePath n) all) =
     (if createRevision (kvs c) (FullGlobalTaskPath n) = 0
      then (\<lparr>Succeeded = True\<rparr>,
            c\<lparr>kvs := created (revision c + 1) n all (kvs c), revision := revision c + 1\<rparr>)
      else (\<lparr>Succeeded = False\<rparr>, c))"
  by (simp add: do_txn_def createTxn_def created_def Let_def)

lemma Get_cases:
  "Get c key opts =
     (case faults c of
        [] \<Rightarrow> (Inr (range_resp (kvs c) key (applyOpts opts)), c)
      | NoFault # fs \<Rightarrow> (Inr (range_resp (kvs c) key (applyOpts opts)), c\<lparr>faults := fs\<rparr>)
      | Lost e # fs \<Rightarrow> (Inl e, c\<lparr>faults := fs\<rparr>)
      | Unacked e # fs \<Rightarrow> (Inl e, c\<lparr>faults := fs\<rparr>))"
  by (simp add: Get_def next_fault_def split: list.splits fault.splits)

lemma Commit_createTxn:
  "Commit c (createTxn (FullGlobalTaskPath n) (FullGlobalTaskStatePath n) all) = (r, c') \<Longrightarrow>
   (case r of
      Inr rsp \<Rightarrow>
        if createRevision (kvs c) (FullGlobalTaskPath n) = 0
        then Succeeded rsp \<and> kvs c' = created (revision c + 1) n all (kvs c)
        else \<not> Succeeded rsp \<and> kvs c' = kvs c
    | Inl e \<Rightarrow>
        kvs c' = kvs c \<or>
        createRevision (kvs c) (FullGlobalTaskPath n) = 0
          \<and> kvs c' = created (revision c + 1) n all (kvs c))"
  by (auto simp: Commit_def next_fault_def do_txn_createTxn
      split: list.splits fault.splits if_splits)

text \<open>
  C10. In \<open>createTask\<close> the error of the keys-only read is never examined. Whenever that
  read fails (the next call to the service meets a fault), the handler panics on the nil
  response: it writes no \<open>{code, message}\<close> response, and it has written nothing to the
  store.
\<close>

theorem createTask_read_failure_panics:
  assumes "faults c = f # fs" and "f \<noteq> NoFault"
  shows "createTask marshal others c (Inr req)
           = (Panicked ''nil pointer dereference'', c\<lparr>faults := fs\<rparr>)"
proof -
  from Get_failed [OF assms]
  obtain e where "Get c (FullGlobalTaskPath (TaskName (Executer req))) [WithKeysOnly]
                    = (Inl e, c\<lparr>faults := fs\<rparr>)"
    by blast
  then show ?thesis
    by (simp add: createTask_def Let_def)
qed

theorem createTask_read_failure_panics_witness:
  "createTask (\<lambda>p. Inr (Rest p)) Pair
     \<lparr>kvs = [], revision = 1, leases = [], faults = [Lost ''context deadline exceeded'']\<rparr>
     (Inr \<lparr>Executer = \<lparr>TaskName = ''build-1''\<rparr>, Rest = ''{}''\<rparr>)
   = (Panicked ''nil pointer dereference'',
      \<lparr>kvs = [], revision = 1, leases = [], faults = []\<rparr>)"
  using createTask_read_failure_panics
    [of "\<lparr>kvs = [], revision = 1, leases = [], faults = [Lost ''context deadline exceeded'']\<rparr>"
        "Lost ''context deadline exceeded''" "[]" "\<lambda>p. Inr (Rest p)" Pair
        "\<lparr>Executer = \<lparr>TaskName = ''build-1''\<rparr>, Rest = ''{}''\<rparr>"]
  by simp

text \<open>The read failure is the only way for the handler to panic.\<close>

lemma createTask_panics_only_on_read_failure:
  assumes "fst (createTask marshal others c bound) = Panicked msg"
  shows "\<exists>req f fs. bound = Inr req \<and> faults c = f # fs \<and> f \<noteq> NoFault"
proof (cases bound)
  case (Inl e)
  with assms show ?thesis by (simp add: createTask_def)
next
  case (Inr req)
  show ?thesis
  proof (cases "faults c")
    case Nil
    with assms Inr show ?thesis
      by (simp add: createTask_def Get_cases Let_def split: if_splits sum.splits prod.splits)
  next
    case (Cons f fs)
    show ?thesis
    proof (cases "f = NoFault")
      case True
      with assms Inr Cons show ?thesis
        by (simp add: createTask_def Get_cases Let_def split: if_splits sum.splits prod.splits)
    next
      case False
      with Inr Cons show ?thesis by simp
    qed
  qed
qed

text \<open>
  C1 (as amended). Every create writes through one conditional transaction guarded on
  the task-definition key having creation revision 0. When the create succeeds, that
  transaction has written both the task definition and the initial task state (value
  \<open>CanRun\<close>) at one revision. A failed create never writes one key without the other:
  unless the commit itself returned an error, it leaves the keys exactly as they were
  (as other clients left them), so a task stored before is still stored after; a create
  whose commit returned an error has written both keys or none.
\<close>

theorem createTask_writes_both_or_neither:
  assumes run: "createTask marshal others c (Inr req) = (out, c')"
    and env: "others (kvs c) (revision c) = (s1, r1)"
  shows "(out = Returned ok \<longrightarrow>
            createRevision s1 (FullGlobalTaskPath (TaskName (Executer req))) = 0 \<and>
            (\<exists>all d st. marshal req = Inr all \<and>
               kvs c' = created (r1 + 1) (TaskName (Executer req)) all s1 \<and>
               lookup (kvs c') (FullGlobalTaskPath (TaskName (Executer req))) = Some d \<and>
               Value d = all \<and>
               lookup (kvs c') (FullGlobalTaskStatePath (TaskName (Executer req))) = Some st \<and>
               Value st = CanRun \<and> ModRevision d = r1 + 1 \<and> ModRevision st = r1 + 1)) \<and>
         (out \<noteq> Returned ok \<longrightarrow>
            (\<forall>e. out \<noteq> Returned (error 500 (txn_error_prefix @ e))) \<longrightarrow>
            kvs c' = kvs c \<or> kvs c' = s1) \<and>
         (kvs c' = kvs c \<or> kvs c' = s1 \<or>
            createRevision s1 (FullGlobalTaskPath (TaskName (Executer req))) = 0 \<and>
            (\<exists>all. marshal req = Inr all \<and>
               kvs c' = created (r1 + 1) (TaskName (Executer req)) all s1))"
proof -
  let ?n = "TaskName (Executer req)"
  obtain g c1 where get: "Get c (FullGlobalTaskPath ?n) [WithKeysOnly] = (g, c1)"
    by (cases "Get c (FullGlobalTaskPath ?n) [WithKeysOnly]")
  then have c1: "kvs c1 = kvs c" "revision c1 = revision c"
    by (auto simp: Get_cases split: list.splits fault.splits)
  show ?thesis
  proof (cases g)
    case (Inl e)
    with run get c1 show ?thesis
      by (auto simp: createTask_def Let_def)
  next
    case (Inr rsp)
    show ?thesis
    proof (cases "0 < length (Kvs rsp)")
      case True
      with run get c1 Inr show ?thesis
        by (auto simp: createTask_def Let_def ok_def error_def)
    next
      case False
      show ?thesis
      proof (cases "marshal req")
        case (Inl e)
        with run get c1 Inr False show ?thesis
          by (auto simp: createTask_def Let_def ok_def error_def)
      next
        case all: (Inr all)
        let ?c = "c1\<lparr>kvs := s1, revision := r1\<rparr>"
        obtain r c2 where com:
          "Commit ?c (createTxn (FullGlobalTaskPath ?n) (FullGlobalTaskStatePath ?n) all) = (r, c2)"
          by (cases "Commit ?c (createTxn (FullGlobalTaskPath ?n) (FullGlobalTaskStatePath ?n) all)")
        note fact = Commit_createTxn [OF com]
        note both = created_both [of "r1 + 1" ?n all s1]
        show ?thesis
        proof (cases r)
          case (Inl e)
          with run get c1 Inr False all env com fact show ?thesis
            by (auto simp: createTask_def Let_def ok_def error_def)
        next
          case rsp2: (Inr rsp2)
          show ?thesis
          proof (cases "createRevision s1 (FullGlobalTaskPath ?n) = 0")
            case True
            with fact rsp2 have w: "Succeeded rsp2" "kvs c2 = created (r1 + 1) ?n all s1"
              by simp_all
            have "out = Returned ok" "c' = c2"
              using run get Inr False all env com rsp2 w(1) c1
              by (simp_all add: createTask_def Let_def)
            with w True all both show ?thesis
              by auto
          next
            case no: False
            with fact rsp2 have w: "\<not> Succeeded rsp2" "kvs c2 = s1"
              by simp_all
            have "out = Returned (error 500 txn_failed_msg)" "c' = c2"
              using run get Inr False all env com rsp2 w(1) c1
              by (simp_all add: createTask_def Let_def)
            with w show ?thesis
              by (simp add: ok_def error_def)
          qed
        qed
      qed
    qed
  qed
qed

theorem createTask_writes_both_or_neither_witness:
  "createTask (\<lambda>p. Inr (Rest p)) Pair
     \<lparr>kvs = [], revision = 1, leases = [], faults = []\<rparr>
     (Inr \<lparr>Executer = \<lparr>TaskName = ''build-1''\<rparr>, Rest = ''{}''\<rparr>)
   = (Returned ok,
      \<lparr>kvs = [\<lparr>Key = ''/scheduler/task/global/build-1'', CreateRevision = 2, ModRevision = 2,
                Version = 1, Value = ''{}'', Lease = 0\<rparr>,
               \<lparr>Key = ''/scheduler/task/state/build-1'', CreateRevision = 2, ModRevision = 2,
                Version = 1, Value = ''CanRun'', Lease = 0\<rparr>],
        revision = 2, leases = [], faults = []\<rparr>)
   \<and> createRevision [] (FullGlobalTaskPath ''build-1'') = 0
   \<and> created 2 ''build-1'' ''{}'' []
       = [\<lparr>Key = ''/scheduler/task/global/build-1'', CreateRevision = 2, ModRevision = 2,
           Version = 1, Value = ''{}'', Lease = 0\<rparr>,
          \<lparr>Key = ''/scheduler/task/state/build-1'', CreateRevision = 2, ModRevision = 2,
           Version = 1, Value = ''CanRun'', Lease = 0\<rparr>]"
proof -
  let ?c = "\<lparr>kvs = [], revision = 1, leases = [], faults = []\<rparr>"
  let ?req = "\<lparr>Executer = \<lparr>TaskName = ''build-1''\<rparr>, Rest = ''{}''\<rparr>"
  let ?c' = "\<lparr>kvs = [\<lparr>Key = ''/scheduler/task/global/build-1'', CreateRevision = 2,
                       ModRevision = 2, Version = 1, Value = ''{}'', Lease = 0\<rparr>,
                      \<lparr>Key = ''/scheduler/task/state/build-1'', CreateRevision = 2,
                       ModRevision = 2, Version = 1, Value = ''CanRun'', Lease = 0\<rparr>],
               revision = 2, leases = [], faults = []\<rparr>"
  have run: "createTask (\<lambda>p. Inr (Rest p)) Pair ?c (Inr ?req) = (Returned ok, ?c')"
    by (simp add: createTask_def Get_def Commit_def next_fault_def do_txn_def createTxn_def
        range_resp_def applyOpts_def plainOp_def selected_def put_kv_def lookup_def
        createRevision_def FullGlobalTaskPath_def FullGlobalTaskStatePath_def
        GlobalTaskPrefix_def GlobalTaskPrefixState_def CanRun_def Let_def)
  have env: "Pair (kvs ?c) (revision ?c) = ([], 1)"
    by simp
  from createTask_writes_both_or_neither [OF run env] run show ?thesis
    by auto
qed

text \<open>
  C1 as stated fails: after a create that is rejected as a duplicate, both keys of that
  task name exist.
\<close>

theorem createTask_failed_create_keeps_task:
  "createTask (\<lambda>p. Inr (Rest p)) Pair
     \<lparr>kvs = [\<lparr>Key = ''/scheduler/task/global/build-1'', CreateRevision = 2, ModRevision = 2,
                Version = 1, Value = ''{}'', Lease = 0\<rparr>,
               \<lparr>Key = ''/scheduler/task/state/build-1'', CreateRevision = 2, ModRevision = 2,
                Version = 1, Value = ''CanRun'', Lease = 0\<rparr>],
        revision = 2, leases = [], faults = []\<rparr>
     (Inr \<lparr>Executer = \<lparr>TaskName = ''build-1''\<rparr>, Rest = ''{}''\<rparr>)
   = (Returned (JSON 500 500 ''duplicate creation:/scheduler/task/global/build-1''),
      \<lparr>kvs = [\<lparr>Key = ''/scheduler/task/global/build-1'', CreateRevision = 2, ModRevision = 2,
                Version = 1, Value = ''{}'', Lease = 0\<rparr>,
               \<lparr>Key = ''/scheduler/task/state/build-1'', CreateRevision = 2, ModRevision = 2,
                Version = 1, Value = ''CanRun'', Lease = 0\<rparr>],
        revision = 2, leases = [], faults = []\<rparr>)
   \<and> lookup [\<lparr>Key = ''/scheduler/task/global/build-1'', CreateRevision = 2, ModRevision = 2,
                Version = 1, Value = ''{}'', Lease = 0\<rparr>,
               \<lparr>Key = ''/scheduler/task/state/build-1'', CreateRevision = 2, ModRevision = 2,
                Version = 1, Value = ''CanRun'', Lease = 0\<rparr>]
         (FullGlobalTaskPath ''build-1'')
       = Some \<lparr>Key = ''/scheduler/task/global/build-1'', CreateRevision = 2, ModRevision = 2,
                Version = 1, Value = ''{}'', Lease = 0\<rparr>"
  by (simp add: createTask_def Get_def next_fault_def
      range_resp_def applyOpts_def plainOp_def selected_def lookup_def error_def
      FullGlobalTaskPath_def FullGlobalTaskStatePath_def
      GlobalTaskPrefix_def GlobalTaskPrefixState_def Let_def)

lemma after_call_store:
  "kvs (after_call c) = kvs c" "revision (after_call c) = revision c"
  "leases (after_call c) = leases c"
  by (simp_all add: after_call_def next_fault_def split: list.splits)

lemma after_call_update:
  "after_call (c\<lparr>kvs := s, revision := r\<rparr>) = (after_call c)\<lparr>kvs := s, revision := r\<rparr>"
  "answered (c\<lparr>kvs := s, revision := r\<rparr>) = answered c"
  by (simp_all add: after_call_def answered_def next_fault_def split: list.splits)

lemma quiet_answered: "faults c = [] \<Longrightarrow> answered c \<and> after_call c = c"
  by (simp add: answered_def after_call_def next_fault_def)

lemma Get_answered:
  "answered c \<Longrightarrow> Get c k opts = (Inr (range_resp (kvs c) k (applyOpts opts)), after_call c)"
  by (cases "next_fault c")
    (auto simp: Get_def answered_def after_call_def next_fault_def split: list.splits)

lemma Commit_answered:
  "answered c \<Longrightarrow> Commit c t = (Inr (fst (do_txn (after_call c) t)), snd (do_txn (after_call c) t))"
  by (cases "next_fault c") (simp add: Commit_def answered_def after_call_def)

lemma createTask_duplicate:
  assumes "answered c" "lookup (kvs c) (FullGlobalTaskPath (TaskName (Executer req))) \<noteq> None"
  shows "createTask marshal others c (Inr req) =
           (Returned (error 500 (''duplicate creation:''
              @ FullGlobalTaskPath (TaskName (Executer req)))), after_call c)"
  using assms by (simp add: createTask_def Get_answered keys_only_hit Let_def after_call_store)

lemma createTask_commit:
  assumes "answered c" "lookup (kvs c) (FullGlobalTaskPath (TaskName (Executer req))) = None"
    "marshal req = Inr all" "answered (after_call c)"
  shows "createTask marshal others c (Inr req) =
           (if createRevision (fst (others (kvs c) (revision c)))
                 (FullGlobalTaskPath (TaskName (Executer req))) = 0
            then (Returned ok,
                  (after_call (after_call c))
                    \<lparr>kvs := created (snd (others (kvs c) (revision c)) + 1)
                              (TaskName (Executer req)) all (fst (others (kvs c) (revision c))),
                     revision := snd (others (kvs c) (revision c)) + 1\<rparr>)
            else (Returned (error 500 txn_failed_msg),
                  (after_call (after_call c))
                    \<lparr>kvs := fst (others (kvs c) (revision c)),
                     revision := snd (others (kvs c) (revision c))\<rparr>))"
  using assms
  by (simp add: createTask_def Get_answered keys_only_hit Let_def Commit_answered
      after_call_update after_call_store do_txn_createTxn)

text \<open>
  C2 (as amended). For a create request whose duplicate-check read is answered: if the
  task name has a stored definition, the create fails with the 500 response whose
  message is \<open>duplicate creation:\<close> and the key, and it writes nothing, whatever the
  request marshals to and whatever other clients do. Otherwise, when the request
  marshals and the commit is answered, the create succeeds exactly when the definition
  key still has creation revision 0 at the commit: it succeeds and writes both keys when
  no other client has created the key since the read, and a create that lost that race
  fails with the 500 response of the failed transaction (not the duplicate message) and
  writes nothing. Creating the same name twice in succession gives one success and then
  the duplicate error.
\<close>

theorem createTask_duplicate_or_success:
  assumes read: "answered c"
  shows "(lookup (kvs c) (FullGlobalTaskPath (TaskName (Executer req))) \<noteq> None \<longrightarrow>
            createTask marshal others c (Inr req) =
              (Returned (error 500 (''duplicate creation:''
                 @ FullGlobalTaskPath (TaskName (Executer req)))), after_call c)) \<and>
         (lookup (kvs c) (FullGlobalTaskPath (TaskName (Executer req))) = None \<and>
          marshal req = Inr all \<and> answered (after_call c) \<longrightarrow>
            createTask marshal others c (Inr req) =
              (if createRevision (fst (others (kvs c) (revision c)))
                    (FullGlobalTaskPath (TaskName (Executer req))) = 0
               then (Returned ok,
                     (after_call (after_call c))
                       \<lparr>kvs := created (snd (others (kvs c) (revision c)) + 1)
                                 (TaskName (Executer req)) all (fst (others (kvs c) (revision c))),
                        revision := snd (others (kvs c) (revision c)) + 1\<rparr>)
               else (Returned (error 500 txn_failed_msg),
                     (after_call (after_call c))
                       \<lparr>kvs := fst (others (kvs c) (revision c)),
                        revision := snd (others (kvs c) (revision c))\<rparr>))) \<and>
         (lookup (kvs c) (FullGlobalTaskPath (TaskName (Executer req))) = None \<and>
          marshal req = Inr all \<and> faults c = [] \<longrightarrow>
            createTask marshal Pair c (Inr req) =
              (Returned ok,
               c\<lparr>kvs := created (revision c + 1) (TaskName (Executer req)) all (kvs c),
                 revision := revision c + 1\<rparr>) \<and>
            createTask marshal' others'
                (c\<lparr>kvs := created (revision c + 1) (TaskName (Executer req)) all (kvs c),
                   revision := revision c + 1\<rparr>) (Inr req) =
              (Returned (error 500 (''duplicate creation:''
                 @ FullGlobalTaskPath (TaskName (Executer req)))),
               c\<lparr>kvs := created (revision c + 1) (TaskName (Executer req)) all (kvs c),
                 revision := revision c + 1\<rparr>))"
proof (intro conjI impI)
  assume "lookup (kvs c) (FullGlobalTaskPath (TaskName (Executer req))) \<noteq> None"
  with read show "createTask marshal others c (Inr req) =
      (Returned (error 500 (''duplicate creation:''
         @ FullGlobalTaskPath (TaskName (Executer req)))), after_call c)"
    by (rule createTask_duplicate)
next
  assume "lookup (kvs c) (FullGlobalTaskPath (TaskName (Executer req))) = None \<and>
          marshal req = Inr all \<and> answered (after_call c)"
  with read show "createTask marshal others c (Inr req) =
      (if createRevision (fst (others (kvs c) (revision c)))
            (FullGlobalTaskPath (TaskName (Executer req))) = 0
       then (Returned ok,
             (after_call (after_call c))
               \<lparr>kvs := created (snd (others (kvs c) (revision c)) + 1)
                         (TaskName (Executer req)) all (fst (others (kvs c) (revision c))),
                revision := snd (others (kvs c) (revision c)) + 1\<rparr>)
       else (Returned (error 500 txn_failed_msg),
             (after_call (after_call c))
               \<lparr>kvs := fst (others (kvs c) (revision c)),
                revision := snd (others (kvs c) (revision c))\<rparr>))"
    by (simp add: createTask_commit)
next
  let ?c' = "c\<lparr>kvs := created (revision c + 1) (TaskName (Executer req)) all (kvs c),
                revision := revision c + 1\<rparr>"
  assume a: "lookup (kvs c) (FullGlobalTaskPath (TaskName (Executer req))) = None \<and>
          marshal req = Inr all \<and> faults c = []"
  then have q: "answered c" "after_call c = c"
    using quiet_answered [of c] by simp_all
  from a q show first: "createTask marshal Pair c (Inr req) = (Returned ok, ?c')"
    by (simp add: createTask_commit createRevision_def after_call_store)
  from a have q': "answered ?c'" "after_call ?c' = ?c'"
    using quiet_answered [of ?c'] by simp_all
  have "lookup (kvs ?c') (FullGlobalTaskPath (TaskName (Executer req))) \<noteq> None"
    using created_both [of "revision c + 1" "TaskName (Executer req)" all "kvs c"] by auto
  with q' show "createTask marshal' others' ?c' (Inr req) =
      (Returned (error 500 (''duplicate creation:''
         @ FullGlobalTaskPath (TaskName (Executer req)))), ?c')"
    by (simp add: createTask_duplicate)
qed

theorem createTask_duplicate_or_success_witness:
  "createTask (\<lambda>p. Inr (Rest p)) Pair
     \<lparr>kvs = [], revision = 1, leases = [], faults = []\<rparr>
     (Inr \<lparr>Executer = \<lparr>TaskName = ''build-1''\<rparr>, Rest = ''{}''\<rparr>)
   = (Returned ok,
      \<lparr>kvs = created 2 ''build-1'' ''{}'' [], revision = 2, leases = [], faults = []\<rparr>)
   \<and> createTask (\<lambda>p. Inr (Rest p)) Pair
       \<lparr>kvs = created 2 ''build-1'' ''{}'' [], revision = 2, leases = [], faults = []\<rparr>
       (Inr \<lparr>Executer = \<lparr>TaskName = ''build-1''\<rparr>, Rest = ''{}''\<rparr>)
     = (Returned (JSON 500 500 ''duplicate creation:/scheduler/task/global/build-1''),
        \<lparr>kvs = created 2 ''build-1'' ''{}'' [], revision = 2, leases = [], faults = []\<rparr>)
   \<and> createTask (\<lambda>p. Inr (Rest p))
       (\<lambda>s r. (put_kv (r + 1) ''/scheduler/task/global/build-1'' ''{other}'' 0 s, r + 1))
       \<lparr>kvs = [], revision = 1, leases = [], faults = []\<rparr>
       (Inr \<lparr>Executer = \<lparr>TaskName = ''build-1''\<rparr>, Rest = ''{}''\<rparr>)
     = (Returned (JSON 500 500 txn_failed_msg),
        \<lparr>kvs = [\<lparr>Key = ''/scheduler/task/global/build-1'', CreateRevision = 2, ModRevision = 2,
                  Version = 1, Value = ''{other}'', Lease = 0\<rparr>],
          revision = 2, leases = [], faults = []\<rparr>)"
proof -
  let ?c = "\<lparr>kvs = [], revision = 1, leases = [], faults = []\<rparr>"
  let ?req = "\<lparr>Executer = \<lparr>TaskName = ''build-1''\<rparr>, Rest = ''{}''\<rparr>"
  let ?m = "\<lambda>p :: Param. (Inr (Rest p) :: string + string)"
  let ?race = "\<lambda>(s :: KeyValue list) (r :: int).
                 (put_kv (r + 1) ''/scheduler/task/global/build-1'' ''{other}'' 0 s, r + 1)"
  have quiet: "faults ?c = []"
    by simp
  have read: "answered ?c" and same: "after_call ?c = ?c"
    using quiet_answered [OF quiet] by simp_all
  have absent: "lookup (kvs ?c) (FullGlobalTaskPath (TaskName (Executer ?req))) = None"
    by (simp add: lookup_def)
  have m: "?m ?req = Inr ''{}''"
    by simp
  note quietly = createTask_duplicate_or_success
    [of ?c ?req ?m Pair "''{}''" ?m Pair, OF read]
  note racing = createTask_duplicate_or_success
    [of ?c ?req ?m ?race "''{}''" ?m Pair, OF read]
  from quietly [THEN conjunct2, THEN conjunct2] absent m quiet
  have twice:
    "createTask ?m Pair ?c (Inr ?req)
       = (Returned ok,
          \<lparr>kvs = created 2 ''build-1'' ''{}'' [], revision = 2, leases = [], faults = []\<rparr>)
     \<and> createTask ?m Pair
         \<lparr>kvs = created 2 ''build-1'' ''{}'' [], revision = 2, leases = [], faults = []\<rparr>
         (Inr ?req)
       = (Returned (JSON 500 500 ''duplicate creation:/scheduler/task/global/build-1''),
          \<lparr>kvs = created 2 ''build-1'' ''{}'' [], revision = 2, leases = [], faults = []\<rparr>)"
    by (simp add: error_def FullGlobalTaskPath_def GlobalTaskPrefix_def)
  from racing [THEN conjunct2, THEN conjunct1] absent m read same
  have lost:
    "createTask ?m ?race ?c (Inr ?req)
       = (Returned (JSON 500 500 txn_failed_msg),
          \<lparr>kvs = [\<lparr>Key = ''/scheduler/task/global/build-1'', CreateRevision = 2,
                    ModRevision = 2, Version = 1, Value = ''{other}'', Lease = 0\<rparr>],
            revision = 2, leases = [], faults = []\<rparr>)"
    by (simp add: error_def FullGlobalTaskPath_def GlobalTaskPrefix_def put_kv_def lookup_def
        createRevision_def after_call_store)
  from twice lost show ?thesis
    by simp
qed

text \<open>
  C2 as stated fails: with no definition stored, a create whose commit returns an error
  is answered with the commit error, not with success.
\<close>

theorem createTask_commit_error_not_success:
  "lookup [] (FullGlobalTaskPath ''build-1'') = None
   \<and> createTask (\<lambda>p. Inr (Rest p)) Pair
     \<lparr>kvs = [], revision = 1, leases = [], faults = [NoFault, Lost ''etcdserver: request timed out'']\<rparr>
     (Inr \<lparr>Executer = \<lparr>TaskName = ''build-1''\<rparr>, Rest = ''{}''\<rparr>)
   = (Returned (JSON 500 500 (txn_error_prefix @ ''etcdserver: request timed out'')),
      \<lparr>kvs = [], revision = 1, leases = [], faults = []\<rparr>)"
  by (simp add: createTask_def Get_def Commit_def next_fault_def createTxn_def
      range_resp_def applyOpts_def plainOp_def selected_def lookup_def error_def
      FullGlobalTaskPath_def FullGlobalTaskStatePath_def
      GlobalTaskPrefix_def GlobalTaskPrefixState_def Let_def)

section \<open>Properties of status\<close>

lemma Get_kvs: "Get c k opts = (r, c') \<Longrightarrow> kvs c' = kvs c"
  by (auto simp: Get_cases split: list.splits fault.splits)

lemma Get_quiet: "faults c = [] \<Longrightarrow> Get c k opts = (Inr (range_resp (kvs c) k (applyOpts opts)), c)"
  by (simp add: Get_cases)

lemma Get_Inr: "Get c k opts = (Inr resp, c') \<Longrightarrow> resp = range_resp (kvs c) k (applyOpts opts)"
  by (auto simp: Get_cases split: list.splits fault.splits)

lemma runtime_ip_kvs: "runtime_ip c s = (r, c') \<Longrightarrow> kvs c' = kvs c"
  by (auto simp: runtime_ip_def dest: Get_kvs split: if_splits prod.splits sum.splits)

lemma runtime_ip_quiet: "faults c = [] \<Longrightarrow> \<exists>ip. runtime_ip c s = (Inr ip, c)"
  by (simp add: runtime_ip_def Get_quiet)

lemma status_loop_kvs:
  "status_loop V fmt pg c data list = (r, c') \<Longrightarrow> kvs c' = kvs c"
proof (induction pg arbitrary: c data list)
  case Nil
  then show ?case by simp
next
  case (Cons kv pg)
  show ?case
  proof (cases "V (Value kv)")
    case (Inl e)
    with Cons.prems show ?thesis by simp
  next
    case (Inr s)
    obtain ipr c1 where ip: "runtime_ip c s = (ipr, c1)"
      by (cases "runtime_ip c s")
    then have k: "kvs c1 = kvs c" by (rule runtime_ip_kvs)
    show ?thesis
    proof (cases ipr)
      case (Inl e)
      with Cons.prems Inr ip k show ?thesis by simp
    next
      case ipv: (Inr ipv)
      with Cons.prems Inr ip k Cons.IH show ?thesis
        by (auto split: if_splits)
    qed
  qed
qed

lemma status_loop_quiet:
  "faults c = [] \<Longrightarrow> snd (status_loop V fmt pg c data list) = c"
proof (induction pg arbitrary: data list fmt)
  case Nil
  then show ?case by simp
next
  case (Cons kv pg)
  show ?case
  proof (cases "V (Value kv)")
    case (Inl e)
    then show ?thesis by simp
  next
    case (Inr s)
    from runtime_ip_quiet [OF Cons.prems]
    obtain ip where ip: "runtime_ip c s = (Inr ip, c)" by blast
    have ih: "\<And>data list fmt. snd (status_loop V fmt pg c data list) = c"
      using Cons.IH [OF Cons.prems] .
    show ?thesis
      by (simp add: Inr ip ih)
  qed
qed

lemma status_loop_json:
  "fmt \<noteq> ''table'' \<Longrightarrow> status_loop V fmt pg c data list = (Inr (data', list'), c') \<Longrightarrow>
   data' = data \<and> (\<exists>ss. map (V \<circ> Value) pg = map Inr ss \<and> list' = list @ map copy_state ss)"
proof (induction pg arbitrary: c data list)
  case Nil
  then show ?case by simp
next
  case (Cons kv pg)
  show ?case
  proof (cases "V (Value kv)")
    case (Inl e)
    with Cons.prems show ?thesis by simp
  next
    case (Inr s)
    obtain ipr c1 where ip: "runtime_ip c s = (ipr, c1)"
      by (cases "runtime_ip c s")
    show ?thesis
    proof (cases ipr)
      case (Inl e)
      with Cons.prems Inr ip show ?thesis by simp
    next
      case ipv: (Inr ipv)
      with Cons.prems Inr ip
      have "status_loop V fmt pg c1 data (list @ [copy_state s]) = (Inr (data', list'), c')"
        by simp
      from Cons.IH [OF Cons.prems(1) this]
      obtain ss where "data' = data" "map (V \<circ> Value) pg = map Inr ss"
        "list' = (list @ [copy_state s]) @ map copy_state ss"
        by blast
      with Inr have "map (V \<circ> Value) (kv # pg) = map Inr (s # ss)"
        "list' = list @ map copy_state (s # ss)"
        by simp_all
      with \<open>data' = data\<close> show ?thesis by blast
    qed
  qed
qed

lemma status_unfold:
  "status V c (Inr p) =
     (case Get c (page_start p) (page_opts p) of
        (Inl err, c1) \<Rightarrow> (Returned (error2 500 err), c1)
      | (Inr resp, c1) \<Rightarrow>
          (case Get c1 GlobalTaskPrefixState [WithCountOnly, WithPrefix] of
             (Inl err2, c2) \<Rightarrow> (Returned (error2 500 err2), c2)
           | (Inr resp2, c2) \<Rightarrow>
               (case status_loop V (p_Format p) (Kvs resp) c2 [] [] of
                  (Inl err, c3) \<Rightarrow> (Returned (error2 500 err), c3)
                | (Inr (data, list), c3) \<Rightarrow>
                    if p_Format p = ''table''
                    then (Returned (Table 200 title data), c3)
                    else if p_Format p = ''json''
                    then (Returned (Data 200
                            \<lparr>Total = Count resp2, Items = list, StartKey = page_start p\<rparr>), c3)
                    else (Returned NoBody, c3))))"
proof -
  let ?p = "if p_Limit p = 0 then p\<lparr>p_Limit := 10\<rparr> else p"
  have e: "p_Limit ?p = effective_limit p" "p_ID ?p = p_ID p" "p_StartKey ?p = p_StartKey p"
    "p_Sort ?p = p_Sort p" "p_Format ?p = p_Format p"
    by (simp_all add: effective_limit_def)
  show ?thesis
    unfolding status_def Let_def sum.case e page_opts_def page_start_def
    by (rule refl)
qed

lemma status_json_run:
  assumes run: "status V c (Inr p) = (Returned (Data code l), c')"
  shows "p_Format p = ''json'' \<and> code = 200 \<and> StartKey l = page_start p \<and> kvs c' = kvs c \<and>
         Total l = Count (range_resp (kvs c) GlobalTaskPrefixState (applyOpts [WithCountOnly, WithPrefix])) \<and>
         (\<exists>ss. map (V \<circ> Value) (Kvs (range_resp (kvs c) (page_start p) (applyOpts (page_opts p))))
                 = map Inr ss \<and> Items l = map copy_state ss)"
proof -
  obtain g1 c1 where g1: "Get c (page_start p) (page_opts p) = (g1, c1)"
    by (cases "Get c (page_start p) (page_opts p)")
  obtain g2 c2 where g2: "Get c1 GlobalTaskPrefixState [WithCountOnly, WithPrefix] = (g2, c2)"
    by (cases "Get c1 GlobalTaskPrefixState [WithCountOnly, WithPrefix]")
  have k: "kvs c1 = kvs c" "kvs c2 = kvs c"
    using Get_kvs [OF g1] Get_kvs [OF g2] by simp_all
  from run g1 obtain resp where r1: "g1 = Inr resp"
    by (cases g1) (auto simp: status_unfold error2_def)
  from run g1 g2 r1 obtain resp2 where r2: "g2 = Inr resp2"
    by (cases g2) (auto simp: status_unfold error2_def)
  obtain lr c3 where lp: "status_loop V (p_Format p) (Kvs resp) c2 [] [] = (lr, c3)"
    by (cases "status_loop V (p_Format p) (Kvs resp) c2 [] []")
  from run g1 g2 r1 r2 lp obtain data list where d: "lr = Inr (data, list)"
    by (cases lr) (auto simp: status_unfold error2_def)
  from run g1 g2 r1 r2 lp d
  have fin: "p_Format p = ''json''" "code = 200" "c' = c3"
    "l = \<lparr>Total = Count resp2, Items = list, StartKey = page_start p\<rparr>"
    by (auto simp: status_unfold split: if_splits)
  have nt: "p_Format p \<noteq> ''table''" using fin(1) by simp
  from status_loop_json [OF nt lp [unfolded d]]
  obtain ss where ss: "map (V \<circ> Value) (Kvs resp) = map Inr ss" "list = map copy_state ss"
    by auto
  have "resp = range_resp (kvs c) (page_start p) (applyOpts (page_opts p))"
    using Get_Inr [OF g1 [unfolded r1]] by simp
  moreover have "resp2 = range_resp (kvs c) GlobalTaskPrefixState (applyOpts [WithCountOnly, WithPrefix])"
    using Get_Inr [OF g2 [unfolded r2]] k by simp
  moreover have "kvs c3 = kvs c"
    using status_loop_kvs [OF lp] k by simp
  ultimately show ?thesis
    using fin ss by auto
qed

lemma selected_UpTo:
  "op_sel op = UpTo e \<Longrightarrow> selected op k = (\<lambda>kv. k \<le> Key kv \<and> Key kv < e)"
  by (rule ext) (simp add: selected_def)

lemma selected_HasPrefix:
  "op_sel op = HasPrefix \<Longrightarrow> selected op k = (\<lambda>kv. take (length k) (Key kv) = k)"
  by (rule ext) (simp add: selected_def)

lemma count_prefix:
  "Count (range_resp s GlobalTaskPrefixState (applyOpts [WithCountOnly, WithPrefix]))
     = int (length (state_records s))"
  by (simp add: range_resp_def applyOpts_def plainOp_def selected_HasPrefix state_records_def Let_def)

lemma page_length:
  "length (Kvs (range_resp s start (applyOpts (page_opts p))))
     = (if 0 < effective_limit p
        then min (nat (effective_limit p)) (length (records_from start s))
        else length (records_from start s))"
  by (simp add: range_resp_def applyOpts_def plainOp_def page_opts_def selected_UpTo
      records_from_def Let_def min.commute split: SortOrder.splits)

lemma le_append_self: "(xs :: string) \<le> xs @ ys"
  by (induction xs) simp_all

lemma has_prefix_ge: "take (length p) k = p \<Longrightarrow> (p :: string) \<le> k"
  by (metis append_take_drop_id le_append_self)

lemma length_filter_mono:
  "(\<And>x. x \<in> set xs \<Longrightarrow> P x \<Longrightarrow> Q x) \<Longrightarrow> length (filter P xs) \<le> length (filter Q xs)"
  by (induction xs) auto

lemma state_records_from_prefix:
  assumes "\<forall>kv\<in>set (state_records s). Key kv < endGlobalTaskKey"
  shows "length (state_records s) \<le> length (records_from GlobalTaskPrefixState s)"
  unfolding state_records_def records_from_def
proof (rule length_filter_mono)
  fix kv
  assume "kv \<in> set s" and pre: "take (length GlobalTaskPrefixState) (Key kv) = GlobalTaskPrefixState"
  with assms have "Key kv < endGlobalTaskKey"
    by (simp add: state_records_def)
  with has_prefix_ge [OF pre]
  show "GlobalTaskPrefixState \<le> Key kv \<and> Key kv < endGlobalTaskKey"
    by simp
qed

lemma status_cong:
  assumes "page_start p = page_start q" "page_opts p = page_opts q" "p_Format p = p_Format q"
  shows "status V c (Inr p) = status V c (Inr q)"
  unfolding status_unfold assms ..

lemma status_default_limit:
  "status V c (Inr (p\<lparr>p_Limit := 0\<rparr>)) = status V c (Inr (p\<lparr>p_Limit := 10\<rparr>))"
  by (rule status_cong) (simp_all add: page_start_def page_opts_def effective_limit_def)

lemma example_first_page:
  "status (\<lambda>v. Inr \<lparr>s_TaskID = v, s_TaskName = v, s_State = ''CanRun'', s_Action = [],
                   s_RuntimeNode = [], s_InRuntime = False, s_CreateTime = [], s_UpdateTime = []\<rparr>)
     \<lparr>kvs = [\<lparr>Key = ''/scheduler/task/state/a'', CreateRevision = 2, ModRevision = 2, Version = 1,
                Value = ''a'', Lease = 0\<rparr>,
               \<lparr>Key = ''/scheduler/task/state/b'', CreateRevision = 3, ModRevision = 3, Version = 1,
                Value = ''b'', Lease = 0\<rparr>],
        revision = 3, leases = [], faults = []\<rparr>
     (Inr \<lparr>p_ID = [], p_StartKey = [], p_Limit = 1, p_Sort = [], p_Format = ''json''\<rparr>)
   = (Returned (Data 200
        \<lparr>Total = 2,
         Items = [\<lparr>rsp_TaskID = ''a'', rsp_TaskName = ''a'', rsp_Action = [], rsp_RuntimeNode = [],
          rsp_InRuntime = False, rsp_CreateTime = [], rsp_UpdateTime = [], rsp_Ip = []\<rparr>],
         StartKey = ''/scheduler/task/state/''\<rparr>),
      \<lparr>kvs = [\<lparr>Key = ''/scheduler/task/state/a'', CreateRevision = 2, ModRevision = 2, Version = 1,
                Value = ''a'', Lease = 0\<rparr>,
               \<lparr>Key = ''/scheduler/task/state/b'', CreateRevision = 3, ModRevision = 3, Version = 1,
                Value = ''b'', Lease = 0\<rparr>],
        revision = 3, leases = [], faults = []\<rparr>)"
  by (simp add: status_def Get_def next_fault_def range_resp_def applyOpts_def plainOp_def selected_def
        runtime_ip_def copy_state_def GlobalTaskPrefixState_def endGlobalTaskKey_def Let_def)

text \<open>
  C9 (as amended). A missing or zero limit defaults to 10. A JSON response over the \<open>N\<close>
  stored task-state records carries \<open>total = N\<close>, obtained by a separate count over the
  state prefix. With \<open>L\<close> the limit in effect and \<open>M\<close> the number of stored keys from the
  page's start key up to the end of the state prefix, the response holds \<open>min L M\<close> items
  when \<open>L\<close> is positive and all \<open>M\<close> items when \<open>L\<close> is negative: a negative limit is
  passed on unchecked, and the store reads it as no limit. So the page has exactly \<open>L\<close>
  items when \<open>L\<close> is positive, the page is read from the start of the prefix, \<open>L \<le> N\<close>,
  and no state key lies at or beyond the end key.
\<close>

theorem status_items_and_total:
  assumes run: "status V c (Inr p) = (Returned (Data code l), c')"
  shows "status V c (Inr (p\<lparr>p_Limit := 0\<rparr>)) = status V c (Inr (p\<lparr>p_Limit := 10\<rparr>)) \<and>
         Total l = int (length (state_records (kvs c))) \<and>
         length (Items l) =
           (if 0 < effective_limit p
            then min (nat (effective_limit p)) (length (records_from (page_start p) (kvs c)))
            else length (records_from (page_start p) (kvs c))) \<and>
         (page_start p = GlobalTaskPrefixState \<and> 0 < effective_limit p \<and>
          nat (effective_limit p) \<le> length (state_records (kvs c)) \<and>
          (\<forall>kv\<in>set (state_records (kvs c)). Key kv < endGlobalTaskKey)
          \<longrightarrow> length (Items l) = nat (effective_limit p))"
proof -
  from status_json_run [OF run]
  obtain ss where tot: "Total l = Count (range_resp (kvs c) GlobalTaskPrefixState
                                   (applyOpts [WithCountOnly, WithPrefix]))"
    and pg: "map (V \<circ> Value) (Kvs (range_resp (kvs c) (page_start p) (applyOpts (page_opts p))))
               = map Inr ss"
    and it: "Items l = map copy_state ss"
    by blast
  from pg have "length ss = length (Kvs (range_resp (kvs c) (page_start p) (applyOpts (page_opts p))))"
    by (metis length_map)
  with it have len: "length (Items l) =
           (if 0 < effective_limit p
            then min (nat (effective_limit p)) (length (records_from (page_start p) (kvs c)))
            else length (records_from (page_start p) (kvs c)))"
    by (simp add: page_length)
  have exact: "length (Items l) = nat (effective_limit p)"
    if "page_start p = GlobalTaskPrefixState" "0 < effective_limit p"
      "nat (effective_limit p) \<le> length (state_records (kvs c))"
      "\<forall>kv\<in>set (state_records (kvs c)). Key kv < endGlobalTaskKey"
    using len that state_records_from_prefix [OF that(4)] by simp
  from tot len exact show ?thesis
    by (simp add: count_prefix status_default_limit)
qed

theorem status_items_and_total_witness:
  "status (\<lambda>v. Inr \<lparr>s_TaskID = v, s_TaskName = v, s_State = ''CanRun'', s_Action = [],
                   s_RuntimeNode = [], s_InRuntime = False, s_CreateTime = [], s_UpdateTime = []\<rparr>)
     \<lparr>kvs = [\<lparr>Key = ''/scheduler/task/state/a'', CreateRevision = 2, ModRevision = 2, Version = 1,
                Value = ''a'', Lease = 0\<rparr>,
               \<lparr>Key = ''/scheduler/task/state/b'', CreateRevision = 3, ModRevision = 3, Version = 1,
                Value = ''b'', Lease = 0\<rparr>],
        revision = 3, leases = [], faults = []\<rparr>
     (Inr \<lparr>p_ID = [], p_StartKey = [], p_Limit = 1, p_Sort = [], p_Format = ''json''\<rparr>)
   = (Returned (Data 200
        \<lparr>Total = 2,
         Items = [\<lparr>rsp_TaskID = ''a'', rsp_TaskName = ''a'', rsp_Action = [], rsp_RuntimeNode = [],
          rsp_InRuntime = False, rsp_CreateTime = [], rsp_UpdateTime = [], rsp_Ip = []\<rparr>],
         StartKey = ''/scheduler/task/state/''\<rparr>),
      \<lparr>kvs = [\<lparr>Key = ''/scheduler/task/state/a'', CreateRevision = 2, ModRevision = 2, Version = 1,
                Value = ''a'', Lease = 0\<rparr>,
               \<lparr>Key = ''/scheduler/task/state/b'', CreateRevision = 3, ModRevision = 3, Version = 1,
                Value = ''b'', Lease = 0\<rparr>],
        revision = 3, leases = [], faults = []\<rparr>)
   \<and> Total \<lparr>Total = 2,
         Items = [\<lparr>rsp_TaskID = ''a'', rsp_TaskName = ''a'', rsp_Action = [], rsp_RuntimeNode = [],
          rsp_InRuntime = False, rsp_CreateTime = [], rsp_UpdateTime = [], rsp_Ip = []\<rparr>],
         StartKey = ''/scheduler/task/state/''\<rparr>
       = int (length (state_records
           [\<lparr>Key = ''/scheduler/task/state/a'', CreateRevision = 2, ModRevision = 2, Version = 1,
             Value = ''a'', Lease = 0\<rparr>,
            \<lparr>Key = ''/scheduler/task/state/b'', CreateRevision = 3, ModRevision = 3, Version = 1,
             Value = ''b'', Lease = 0\<rparr>]))
   \<and> length (Items \<lparr>Total = 2,
         Items = [\<lparr>rsp_TaskID = ''a'', rsp_TaskName = ''a'', rsp_Action = [], rsp_RuntimeNode = [],
          rsp_InRuntime = False, rsp_CreateTime = [], rsp_UpdateTime = [], rsp_Ip = []\<rparr>],
         StartKey = ''/scheduler/task/state/''\<rparr>) = 1"
  using status_items_and_total [OF example_first_page] example_first_page
  by (simp add: effective_limit_def)


lemma page_start_again: "page_start (p\<lparr>p_StartKey := page_start p\<rparr>) = page_start p"
  by (simp add: page_start_def GlobalTaskPrefixState_def)

lemma status_same_page:
  "status V c (Inr (p\<lparr>p_StartKey := page_start p\<rparr>)) = status V c (Inr p)"
  by (rule status_cong) (simp_all add: page_start_again page_opts_def effective_limit_def)

lemma status_quiet:
  assumes q: "faults c = []"
  shows "snd (status V c (Inr p)) = c"
proof -
  let ?resp = "range_resp (kvs c) (page_start p) (applyOpts (page_opts p))"
  obtain lr c3 where lp: "status_loop V (p_Format p) (Kvs ?resp) c [] [] = (lr, c3)"
    by (cases "status_loop V (p_Format p) (Kvs ?resp) c [] []")
  with status_loop_quiet [OF q, of V "p_Format p" "Kvs ?resp" "[]" "[]"] have "c3 = c"
    by simp
  then show ?thesis
    unfolding status_unfold Get_quiet [OF q] prod.case sum.case lp
    by (cases lr) (auto split: prod.splits)
qed

lemma consecutive_pages_repeat:
  assumes quiet: "faults c = []"
  shows "status V c (Inr p) = (Returned (Data code l), c') \<Longrightarrow>
         consecutive_pages n V c p = replicate n (Items l)"
proof (induction n arbitrary: p)
  case 0
  then show ?case by simp
next
  case (Suc n)
  from status_quiet [OF quiet, of V p] Suc.prems have c': "c' = c" by simp
  from status_json_run [OF Suc.prems] have sk: "StartKey l = page_start p" by simp
  have "status V c (Inr (p\<lparr>p_StartKey := StartKey l\<rparr>)) = (Returned (Data code l), c')"
    using Suc.prems sk by (simp add: status_same_page)
  from Suc.IH [OF this] Suc.prems c' show ?case
    by simp
qed

lemma page_is_page_records:
  "Kvs (range_resp s (page_start p) (applyOpts (page_opts p))) = page_records p s"
  by (simp add: range_resp_def applyOpts_def plainOp_def page_opts_def selected_UpTo
      records_from_def page_records_def Let_def)

lemma take_leading:
  assumes "sorted_wrt R xs" "y \<in> set (take n xs)" "x \<in> set xs" "x \<notin> set (take n xs)"
  shows "R y x"
proof -
  have "sorted_wrt R (take n xs @ drop n xs)"
    using assms(1) by simp
  from this [unfolded sorted_wrt_append]
  have "\<forall>a\<in>set (take n xs). \<forall>b\<in>set (drop n xs). R a b"
    by blast
  moreover have "x \<in> set (drop n xs)"
    using assms(3,4) by (metis Un_iff append_take_drop_id set_append)
  ultimately show ?thesis
    using assms(2) by blast
qed

lemma ordered_in_order:
  "sorted_wrt (in_order p)
     (if take 1 (p_Sort p) = ''-'' then rev (sort_key Key xs) else sort_key Key xs)"
proof (cases "take 1 (p_Sort p) = ''-''")
  case True
  have "sorted_wrt (\<lambda>a b. Key a \<le> Key b) (sort_key Key xs)"
    using sorted_sort_key [of Key xs] by (simp add: sorted_map)
  then have "sorted_wrt (\<lambda>a b. Key b \<le> Key a) (rev (sort_key Key xs))"
    by (simp add: sorted_wrt_rev)
  moreover have "in_order p = (\<lambda>a b. Key b \<le> Key a)"
    using True by (intro ext) (simp add: in_order_def)
  ultimately show ?thesis
    using True by simp
next
  case False
  have "sorted_wrt (\<lambda>a b. Key a \<le> Key b) (sort_key Key xs)"
    using sorted_sort_key [of Key xs] by (simp add: sorted_map)
  moreover have "in_order p = (\<lambda>a b. Key a \<le> Key b)"
    using False by (intro ext) (simp add: in_order_def)
  ultimately show ?thesis
    using False by simp
qed

lemma page_records_order:
  "sorted_wrt (in_order p) (page_records p s)"
  "set (page_records p s) \<subseteq> set (records_from (page_start p) s)"
  "\<forall>x\<in>set (records_from (page_start p) s) - set (page_records p s).
     \<forall>y\<in>set (page_records p s). in_order p y x"
proof -
  let ?recs = "records_from (page_start p) s"
  let ?ord = "if take 1 (p_Sort p) = ''-'' then rev (sort_key Key ?recs) else sort_key Key ?recs"
  have ord: "sorted_wrt (in_order p) ?ord"
    by (rule ordered_in_order)
  have set_ord: "set ?ord = set ?recs"
    by simp
  have page: "page_records p s =
      (if 0 < effective_limit p then take (nat (effective_limit p)) ?ord else ?ord)"
    by (simp add: page_records_def Let_def)
  show "sorted_wrt (in_order p) (page_records p s)"
  proof (cases "0 < effective_limit p")
    case True
    with page have "page_records p s = take (nat (effective_limit p)) ?ord"
      by simp
    with ord show ?thesis
      by (simp only: sorted_wrt_take)
  next
    case False
    with page have "page_records p s = ?ord"
      by simp
    with ord show ?thesis
      by (simp only:)
  qed
  show "set (page_records p s) \<subseteq> set ?recs"
  proof (cases "0 < effective_limit p")
    case True
    with page have "page_records p s = take (nat (effective_limit p)) ?ord"
      by simp
    with set_take_subset [of "nat (effective_limit p)" ?ord] set_ord show ?thesis
      by (simp only:)
  next
    case False
    with page have "page_records p s = ?ord"
      by simp
    with set_ord show ?thesis
      by (simp only:)
  qed
  show "\<forall>x\<in>set ?recs - set (page_records p s). \<forall>y\<in>set (page_records p s). in_order p y x"
  proof (intro ballI)
    fix x y
    assume x: "x \<in> set ?recs - set (page_records p s)" and y: "y \<in> set (page_records p s)"
    show "in_order p y x"
    proof (cases "0 < effective_limit p")
      case True
      with page have pg: "page_records p s = take (nat (effective_limit p)) ?ord"
        by simp
      from x set_ord have "x \<in> set ?ord" "x \<notin> set (take (nat (effective_limit p)) ?ord)"
        unfolding pg by blast+
      with ord y [unfolded pg] show ?thesis
        by (intro take_leading [of "in_order p" ?ord y "nat (effective_limit p)" x])
    next
      case False
      with page have "page_records p s = ?ord"
        by simp
      with x set_ord show ?thesis
        by simp
    qed
  qed
qed

text \<open>
  C3 (as amended). Each JSON status response carries the start key its own page was read
  from (the request's start key when the id is empty and the start key is not, the state
  prefix otherwise), not the key of the next page. While the service answers, a request
  that starts from the returned start key gets the same answer again, so on a fixed set
  of records a caller that follows the returned start keys receives the first page over
  and over. The items of a page are the decoded records of \<open>page_records\<close>: of the stored
  records whose keys lie from the start key up to the end of the state prefix, the first
  \<open>L\<close> in the order asked for (all of them when \<open>L\<close> is negative), in that order, which is
  ascending by key, and descending by key when the sort token starts with \<open>-\<close>; so a
  descending page holds the largest keys of the range, not those next to the start key.
\<close>

theorem status_returns_its_own_start_key:
  assumes run: "status V c (Inr p) = (Returned (Data code l), c')"
    and quiet: "faults c = []"
  shows "StartKey l = page_start p \<and>
         status V c (Inr (p\<lparr>p_StartKey := StartKey l\<rparr>)) = status V c (Inr p) \<and>
         consecutive_pages n V c p = replicate n (Items l) \<and>
         (\<exists>ss. map (V \<circ> Value) (page_records p (kvs c)) = map Inr ss \<and>
               Items l = map copy_state ss) \<and>
         sorted_wrt (in_order p) (page_records p (kvs c)) \<and>
         set (page_records p (kvs c)) \<subseteq> set (records_from (page_start p) (kvs c)) \<and>
         (\<forall>x\<in>set (records_from (page_start p) (kvs c)) - set (page_records p (kvs c)).
            \<forall>y\<in>set (page_records p (kvs c)). in_order p y x) \<and>
         length (page_records p (kvs c)) =
           (if 0 < effective_limit p
            then min (nat (effective_limit p)) (length (records_from (page_start p) (kvs c)))
            else length (records_from (page_start p) (kvs c)))"
proof -
  have len: "length (page_records p (kvs c)) =
           (if 0 < effective_limit p
            then min (nat (effective_limit p)) (length (records_from (page_start p) (kvs c)))
            else length (records_from (page_start p) (kvs c)))"
    using page_length [of "kvs c" "page_start p" p] by (simp only: page_is_page_records)
  from status_json_run [OF run] consecutive_pages_repeat [OF quiet run, of n]
    page_records_order [of p "kvs c"] len
  show ?thesis
    by (simp add: status_same_page page_is_page_records)
qed

theorem status_returns_its_own_start_key_witness:
  "status (\<lambda>v. Inr \<lparr>s_TaskID = v, s_TaskName = v, s_State = ''CanRun'', s_Action = [],
                   s_RuntimeNode = [], s_InRuntime = False, s_CreateTime = [], s_UpdateTime = []\<rparr>)
     \<lparr>kvs = [\<lparr>Key = ''/scheduler/task/state/a'', CreateRevision = 2, ModRevision = 2, Version = 1,
                Value = ''a'', Lease = 0\<rparr>,
               \<lparr>Key = ''/scheduler/task/state/b'', CreateRevision = 3, ModRevision = 3, Version = 1,
                Value = ''b'', Lease = 0\<rparr>],
        revision = 3, leases = [], faults = []\<rparr>
     (Inr \<lparr>p_ID = [], p_StartKey = [], p_Limit = 1, p_Sort = [], p_Format = ''json''\<rparr>)
   = (Returned (Data 200
        \<lparr>Total = 2,
         Items = [\<lparr>rsp_TaskID = ''a'', rsp_TaskName = ''a'', rsp_Action = [], rsp_RuntimeNode = [],
          rsp_InRuntime = False, rsp_CreateTime = [], rsp_UpdateTime = [], rsp_Ip = []\<rparr>],
         StartKey = ''/scheduler/task/state/''\<rparr>),
      \<lparr>kvs = [\<lparr>Key = ''/scheduler/task/state/a'', CreateRevision = 2, ModRevision = 2, Version = 1,
                Value = ''a'', Lease = 0\<rparr>,
               \<lparr>Key = ''/scheduler/task/state/b'', CreateRevision = 3, ModRevision = 3, Version = 1,
                Value = ''b'', Lease = 0\<rparr>],
        revision = 3, leases = [], faults = []\<rparr>)
   \<and> consecutive_pages 2 (\<lambda>v. Inr \<lparr>s_TaskID = v, s_TaskName = v, s_State = ''CanRun'', s_Action = [],
                   s_RuntimeNode = [], s_InRuntime = False, s_CreateTime = [], s_UpdateTime = []\<rparr>)
     \<lparr>kvs = [\<lparr>Key = ''/scheduler/task/state/a'', CreateRevision = 2, ModRevision = 2, Version = 1,
                Value = ''a'', Lease = 0\<rparr>,
               \<lparr>Key = ''/scheduler/task/state/b'', CreateRevision = 3, ModRevision = 3, Version = 1,
                Value = ''b'', Lease = 0\<rparr>],
        revision = 3, leases = [], faults = []\<rparr>
     \<lparr>p_ID = [], p_StartKey = [], p_Limit = 1, p_Sort = [], p_Format = ''json''\<rparr>
     = [[\<lparr>rsp_TaskID = ''a'', rsp_TaskName = ''a'', rsp_Action = [], rsp_RuntimeNode = [],
          rsp_InRuntime = False, rsp_CreateTime = [], rsp_UpdateTime = [], rsp_Ip = []\<rparr>],
        [\<lparr>rsp_TaskID = ''a'', rsp_TaskName = ''a'', rsp_Action = [], rsp_RuntimeNode = [],
          rsp_InRuntime = False, rsp_CreateTime = [], rsp_UpdateTime = [], rsp_Ip = []\<rparr>]]"
proof -
  have quiet: "faults \<lparr>kvs = [\<lparr>Key = ''/scheduler/task/state/a'', CreateRevision = 2, ModRevision = 2, Version = 1,
                Value = ''a'', Lease = 0\<rparr>,
               \<lparr>Key = ''/scheduler/task/state/b'', CreateRevision = 3, ModRevision = 3, Version = 1,
                Value = ''b'', Lease = 0\<rparr>],
        revision = 3, leases = [], faults = []\<rparr> = []"
    by simp
  have twice: "replicate 2 x = [x, x]" for x :: "stateRsp list"
    by (simp add: numeral_2_eq_2)
  from status_returns_its_own_start_key [OF example_first_page quiet, of 2]
  have "consecutive_pages 2 (\<lambda>v. Inr \<lparr>s_TaskID = v, s_TaskName = v, s_State = ''CanRun'', s_Action = [],
                   s_RuntimeNode = [], s_InRuntime = False, s_CreateTime = [], s_UpdateTime = []\<rparr>)
     \<lparr>kvs = [\<lparr>Key = ''/scheduler/task/state/a'', CreateRevision = 2, ModRevision = 2, Version = 1,
                Value = ''a'', Lease = 0\<rparr>,
               \<lparr>Key = ''/scheduler/task/state/b'', CreateRevision = 3, ModRevision = 3, Version = 1,
                Value = ''b'', Lease = 0\<rparr>],
        revision = 3, leases = [], faults = []\<rparr>
     \<lparr>p_ID = [], p_StartKey = [], p_Limit = 1, p_Sort = [], p_Format = ''json''\<rparr>
     = [[\<lparr>rsp_TaskID = ''a'', rsp_TaskName = ''a'', rsp_Action = [], rsp_RuntimeNode = [],
          rsp_InRuntime = False, rsp_CreateTime = [], rsp_UpdateTime = [], rsp_Ip = []\<rparr>],
        [\<lparr>rsp_TaskID = ''a'', rsp_TaskName = ''a'', rsp_Action = [], rsp_RuntimeNode = [],
          rsp_InRuntime = False, rsp_CreateTime = [], rsp_UpdateTime = [], rsp_Ip = []\<rparr>]]"
    by (simp add: twice)
  with example_first_page show ?thesis
    by (rule conjI)
qed

text \<open>
  C3 as stated fails: over two records and page size 1, following the returned start key
  for three requests gives the first record three times; the second record never comes.
\<close>

theorem status_repeats_first_page:
  "length (state_records (kvs \<lparr>kvs = [\<lparr>Key = ''/scheduler/task/state/a'', CreateRevision = 2, ModRevision = 2, Version = 1,
                Value = ''a'', Lease = 0\<rparr>,
               \<lparr>Key = ''/scheduler/task/state/b'', CreateRevision = 3, ModRevision = 3, Version = 1,
                Value = ''b'', Lease = 0\<rparr>],
        revision = 3, leases = [], faults = []\<rparr>)) = 2 \<and>
   consecutive_pages 3 (\<lambda>v. Inr \<lparr>s_TaskID = v, s_TaskName = v, s_State = ''CanRun'', s_Action = [],
                   s_RuntimeNode = [], s_InRuntime = False, s_CreateTime = [], s_UpdateTime = []\<rparr>)
     \<lparr>kvs = [\<lparr>Key = ''/scheduler/task/state/a'', CreateRevision = 2, ModRevision = 2, Version = 1,
                Value = ''a'', Lease = 0\<rparr>,
               \<lparr>Key = ''/scheduler/task/state/b'', CreateRevision = 3, ModRevision = 3, Version = 1,
                Value = ''b'', Lease = 0\<rparr>],
        revision = 3, leases = [], faults = []\<rparr>
     \<lparr>p_ID = [], p_StartKey = [], p_Limit = 1, p_Sort = [], p_Format = ''json''\<rparr>
   = [[\<lparr>rsp_TaskID = ''a'', rsp_TaskName = ''a'', rsp_Action = [], rsp_RuntimeNode = [],
          rsp_InRuntime = False, rsp_CreateTime = [], rsp_UpdateTime = [], rsp_Ip = []\<rparr>],
      [\<lparr>rsp_TaskID = ''a'', rsp_TaskName = ''a'', rsp_Action = [], rsp_RuntimeNode = [],
          rsp_InRuntime = False, rsp_CreateTime = [], rsp_UpdateTime = [], rsp_Ip = []\<rparr>],
      [\<lparr>rsp_TaskID = ''a'', rsp_TaskName = ''a'', rsp_Action = [], rsp_RuntimeNode = [],
          rsp_InRuntime = False, rsp_CreateTime = [], rsp_UpdateTime = [], rsp_Ip = []\<rparr>]]"
  by (simp add: numeral_3_eq_3 state_records_def status_def Get_def next_fault_def range_resp_def applyOpts_def plainOp_def selected_def
        runtime_ip_def copy_state_def GlobalTaskPrefixState_def endGlobalTaskKey_def Let_def)

text \<open>
  C9 as stated fails: over two records, a query with limit 2 that starts at the second
  record's key returns one item.
\<close>

theorem status_short_page:
  "length (state_records (kvs \<lparr>kvs = [\<lparr>Key = ''/scheduler/task/state/a'', CreateRevision = 2, ModRevision = 2, Version = 1,
                Value = ''a'', Lease = 0\<rparr>,
               \<lparr>Key = ''/scheduler/task/state/b'', CreateRevision = 3, ModRevision = 3, Version = 1,
                Value = ''b'', Lease = 0\<rparr>],
        revision = 3, leases = [], faults = []\<rparr>)) = 2 \<and>
   status (\<lambda>v. Inr \<lparr>s_TaskID = v, s_TaskName = v, s_State = ''CanRun'', s_Action = [],
                   s_RuntimeNode = [], s_InRuntime = False, s_CreateTime = [], s_UpdateTime = []\<rparr>)
     \<lparr>kvs = [\<lparr>Key = ''/scheduler/task/state/a'', CreateRevision = 2, ModRevision = 2, Version = 1,
                Value = ''a'', Lease = 0\<rparr>,
               \<lparr>Key = ''/scheduler/task/state/b'', CreateRevision = 3, ModRevision = 3, Version = 1,
                Value = ''b'', Lease = 0\<rparr>],
        revision = 3, leases = [], faults = []\<rparr>
     (Inr \<lparr>p_ID = [], p_StartKey = ''/scheduler/task/state/b'', p_Limit = 2, p_Sort = [], p_Format = ''json''\<rparr>)
   = (Returned (Data 200
        \<lparr>Total = 2,
         Items = [\<lparr>rsp_TaskID = ''b'', rsp_TaskName = ''b'', rsp_Action = [], rsp_RuntimeNode = [],
          rsp_InRuntime = False, rsp_CreateTime = [], rsp_UpdateTime = [], rsp_Ip = []\<rparr>],
         StartKey = ''/scheduler/task/state/b''\<rparr>),
      \<lparr>kvs = [\<lparr>Key = ''/scheduler/task/state/a'', CreateRevision = 2, ModRevision = 2, Version = 1,
                Value = ''a'', Lease = 0\<rparr>,
               \<lparr>Key = ''/scheduler/task/state/b'', CreateRevision = 3, ModRevision = 3, Version = 1,
                Value = ''b'', Lease = 0\<rparr>],
        revision = 3, leases = [], faults = []\<rparr>)"
  by (simp add: state_records_def status_def Get_def next_fault_def range_resp_def applyOpts_def plainOp_def selected_def
        runtime_ip_def copy_state_def GlobalTaskPrefixState_def endGlobalTaskKey_def Let_def)

text \<open>
  Two pages over the same two records: with limit \<open>-1\<close> the page holds both records
  though the limit is below the number of records; with limit 1 and the sort token
  \<open>-key\<close>, a page read from the first record's key holds the second record.
\<close>

lemma example_negative_limit:
  "status (\<lambda>v. Inr \<lparr>s_TaskID = v, s_TaskName = v, s_State = ''CanRun'', s_Action = [],
                   s_RuntimeNode = [], s_InRuntime = False, s_CreateTime = [], s_UpdateTime = []\<rparr>)
     \<lparr>kvs = [\<lparr>Key = ''/scheduler/task/state/a'', CreateRevision = 2, ModRevision = 2, Version = 1,
                Value = ''a'', Lease = 0\<rparr>,
               \<lparr>Key = ''/scheduler/task/state/b'', CreateRevision = 3, ModRevision = 3, Version = 1,
                Value = ''b'', Lease = 0\<rparr>],
        revision = 3, leases = [], faults = []\<rparr>
     (Inr \<lparr>p_ID = [], p_StartKey = [], p_Limit = -1, p_Sort = [], p_Format = ''json''\<rparr>)
   = (Returned (Data 200
        \<lparr>Total = 2,
         Items = [\<lparr>rsp_TaskID = ''a'', rsp_TaskName = ''a'', rsp_Action = [], rsp_RuntimeNode = [],
          rsp_InRuntime = False, rsp_CreateTime = [], rsp_UpdateTime = [], rsp_Ip = []\<rparr>,
                  \<lparr>rsp_TaskID = ''b'', rsp_TaskName = ''b'', rsp_Action = [], rsp_RuntimeNode = [],
          rsp_InRuntime = False, rsp_CreateTime = [], rsp_UpdateTime = [], rsp_Ip = []\<rparr>],
         StartKey = ''/scheduler/task/state/''\<rparr>),
      \<lparr>kvs = [\<lparr>Key = ''/scheduler/task/state/a'', CreateRevision = 2, ModRevision = 2, Version = 1,
                Value = ''a'', Lease = 0\<rparr>,
               \<lparr>Key = ''/scheduler/task/state/b'', CreateRevision = 3, ModRevision = 3, Version = 1,
                Value = ''b'', Lease = 0\<rparr>],
        revision = 3, leases = [], faults = []\<rparr>)"
  by (simp add: status_def Get_def next_fault_def range_resp_def applyOpts_def plainOp_def selected_def
        runtime_ip_def copy_state_def GlobalTaskPrefixState_def endGlobalTaskKey_def Let_def)

lemma example_descending_page:
  "status (\<lambda>v. Inr \<lparr>s_TaskID = v, s_TaskName = v, s_State = ''CanRun'', s_Action = [],
                   s_RuntimeNode = [], s_InRuntime = False, s_CreateTime = [], s_UpdateTime = []\<rparr>)
     \<lparr>kvs = [\<lparr>Key = ''/scheduler/task/state/a'', CreateRevision = 2, ModRevision = 2, Version = 1,
                Value = ''a'', Lease = 0\<rparr>,
               \<lparr>Key = ''/scheduler/task/state/b'', CreateRevision = 3, ModRevision = 3, Version = 1,
                Value = ''b'', Lease = 0\<rparr>],
        revision = 3, leases = [], faults = []\<rparr>
     (Inr \<lparr>p_ID = [], p_StartKey = ''/scheduler/task/state/a'', p_Limit = 1, p_Sort = ''-key'', p_Format = ''json''\<rparr>)
   = (Returned (Data 200
        \<lparr>Total = 2,
         Items = [\<lparr>rsp_TaskID = ''b'', rsp_TaskName = ''b'', rsp_Action = [], rsp_RuntimeNode = [],
          rsp_InRuntime = False, rsp_CreateTime = [], rsp_UpdateTime = [], rsp_Ip = []\<rparr>],
         StartKey = ''/scheduler/task/state/a''\<rparr>),
      \<lparr>kvs = [\<lparr>Key = ''/scheduler/task/state/a'', CreateRevision = 2, ModRevision = 2, Version = 1,
                Value = ''a'', Lease = 0\<rparr>,
               \<lparr>Key = ''/scheduler/task/state/b'', CreateRevision = 3, ModRevision = 3, Version = 1,
                Value = ''b'', Lease = 0\<rparr>],
        revision = 3, leases = [], faults = []\<rparr>)"
  by (simp add: status_def Get_def next_fault_def range_resp_def applyOpts_def plainOp_def selected_def
        runtime_ip_def copy_state_def GlobalTaskPrefixState_def endGlobalTaskKey_def Let_def)

section \<open>Properties of the sessions, of start-up and of stopTask\<close>

lemma registerRuntimeWithKeepalive_ignores_name:
  "registerRuntimeWithKeepalive r runtimeName c = registerRuntimeWithKeepalive r other c"
  by (simp add: registerRuntimeWithKeepalive_def)

text \<open>
  C4 does not hold of the code. On the first message of a session the registration
  routine is started with the worker's name, but it never reads that name: the key it
  puts is the runtime-node path of the gateway's own node name, and the value is the
  gateway's own server address. Here the worker calls itself \<open>worker-1\<close> and the key
  written is the one of \<open>gate-g1\<close>.
\<close>

theorem stream_registers_gate_identity:
  "stream \<lparr>ServerAddr = ''10.0.0.1:8080'', AutoFindAddr = False, EtcdAddr = [''127.0.0.1:2379''],
            NamePrefix = ''gate'', Name = ''g1'', Level = ''info'', LeaseTime = 4000000000\<rparr>
     None [Msg \<lparr>WhoamiName = ''worker-1''\<rparr>]
     \<lparr>kvs = [], revision = 1, leases = [], faults = []\<rparr>
   = (Reading,
      \<lparr>kvs = [\<lparr>Key = ''/scheduler/runtime/node/gate-g1'', CreateRevision = 2, ModRevision = 2,
                Version = 1, Value = ''10.0.0.1:8080'', Lease = 1\<rparr>],
        revision = 2,
        leases = [\<lparr>LeaseID = 1, LeaseTTL = 4000000000, Renewals = 0\<rparr>],
        faults = []\<rparr>)"
  by (simp add: stream_def registerRuntimeWithKeepalive_def NewLease_def Grant_def do_grant_def
      Put_def do_put_def put_kv_def lookup_def next_fault_def applyOpts_def plainOp_def
      NodeName_def FullRuntimeNodePath_def Let_def)

text \<open>
  C8 does not hold of the code in a session whose lease could not be obtained. The
  registration routine returns on the lease error, so nothing receives from the
  keepalive channel: the second message of the session triggers no renewal, and the
  handler stays in its send for ever; it reads no further message and never reaches the
  end of its read loop.
\<close>

theorem stream_blocks_after_failed_lease:
  "stream \<lparr>ServerAddr = ''10.0.0.1:8080'', AutoFindAddr = False, EtcdAddr = [''127.0.0.1:2379''],
            NamePrefix = ''gate'', Name = ''g1'', Level = ''info'', LeaseTime = 4000000000\<rparr>
     None
     [Msg \<lparr>WhoamiName = ''worker-1''\<rparr>, Msg \<lparr>WhoamiName = []\<rparr>, Msg \<lparr>WhoamiName = []\<rparr>,
      ReadError ''EOF'']
     \<lparr>kvs = [], revision = 1, leases = [], faults = [Lost ''etcdserver: request timed out'']\<rparr>
   = (Blocked, \<lparr>kvs = [], revision = 1, leases = [], faults = []\<rparr>)"
  by (simp add: stream_def registerRuntimeWithKeepalive_def NewLease_def Grant_def
      next_fault_def)

text \<open>
  In a session that did get its lease, and while the service answers, every message after
  the first is one renewal of that lease, and the end of the read loop ends the renewals.
\<close>

lemma keepalive_tick_quiet:
  "faults c = [] \<Longrightarrow> leases c = [l] \<Longrightarrow> LeaseID l = i \<Longrightarrow>
   keepalive_tick i c = c\<lparr>leases := [l\<lparr>Renewals := Suc (Renewals l)\<rparr>]\<rparr>"
  by (simp add: keepalive_tick_def KeepAliveOnce_def next_fault_def do_renew_def)

lemma stream_loop_renewals:
  "faults c = [] \<Longrightarrow> leases c = [l] \<Longrightarrow> LeaseID l = i \<Longrightarrow>
   stream_loop r (map Msg ws @ ReadError e # later) (Some (Receiving i)) c
     = (Closed, c\<lparr>leases := [l\<lparr>Renewals := Renewals l + length ws\<rparr>]\<rparr>)"
proof (induction ws arbitrary: c l)
  case Nil
  then show ?case by simp
next
  case (Cons w ws)
  let ?l = "l\<lparr>Renewals := Suc (Renewals l)\<rparr>"
  let ?c = "c\<lparr>leases := [?l]\<rparr>"
  have tick: "keepalive_tick i c = ?c"
    using Cons.prems by (rule keepalive_tick_quiet)
  have "stream_loop r (map Msg ws @ ReadError e # later) (Some (Receiving i)) ?c
          = (Closed, ?c\<lparr>leases := [?l\<lparr>Renewals := Renewals ?l + length ws\<rparr>]\<rparr>)"
    using Cons.prems by (intro Cons.IH) simp_all
  with tick show ?case by simp
qed

lemma stream_renewals:
  assumes "faults c = []" "leases c = []"
  shows "\<exists>c'. stream r None (Msg w # map Msg ws @ ReadError e # later) c = (Closed, c') \<and>
              leases c' = [\<lparr>LeaseID = 1, LeaseTTL = LeaseTime r, Renewals = length ws\<rparr>]"
proof -
  let ?l = "\<lparr>LeaseID = 1, LeaseTTL = LeaseTime r, Renewals = 0\<rparr>"
  obtain c1 where reg: "registerRuntimeWithKeepalive r (WhoamiName w) c = (Receiving 1, c1)"
    and c1: "faults c1 = []" "leases c1 = [?l]"
    using assms
    by (simp add: registerRuntimeWithKeepalive_def NewLease_def Grant_def do_grant_def
        Put_def do_put_def next_fault_def Let_def)
  from stream_loop_renewals [OF c1, of 1 r ws e later] reg
  show ?thesis
    by (simp add: stream_def)
qed

text \<open>
  C5 does not hold of the code. When the lease for the gateway's own node cannot be
  obtained, \<open>registerGateNode\<close> returns the error to no one, and start-up goes on to serve
  requests with no gateway key in the store.
\<close>

theorem SubMain_serves_unregistered:
  "SubMain 3000000000 ''6f1c'' 
     (\<lambda>addrs. Inr \<lparr>kvs = [], revision = 1, leases = [],
                    faults = [Lost ''context deadline exceeded'']\<rparr>)
     ''127.0.0.1:41000''
     \<lparr>ServerAddr = ''10.0.0.1:8080'', AutoFindAddr = False, EtcdAddr = [''127.0.0.1:2379''],
      NamePrefix = ''gate'', Name = ''g1'', Level = ''info'', LeaseTime = 4000000000\<rparr>
   = Serving
       \<lparr>ServerAddr = ''10.0.0.1:8080'', AutoFindAddr = False, EtcdAddr = [''127.0.0.1:2379''],
        NamePrefix = ''gate'', Name = ''g1'', Level = ''info'', LeaseTime = 4000000000\<rparr>
       \<lparr>kvs = [], revision = 1, leases = [], faults = []\<rparr>"
  by (simp add: SubMain_def init_def registerGateNode_def getAddress_def
      NewLeaseWithKeepalive_def Grant_def next_fault_def Let_def word_sless_alt)

text \<open>
  The two start-up failures that do abort the process: the client cannot be set up, or
  there is no address to listen on.
\<close>

lemma SubMain_aborts_on_init_error:
  "NewEtcdClient (EtcdAddr r) = Inl err \<Longrightarrow>
   SubMain RuntimeKeepalive uuid NewEtcdClient GetUnusedAddr r = Aborted err"
  by (simp add: SubMain_def init_def Let_def)

lemma SubMain_aborts_without_address:
  "NewEtcdClient (EtcdAddr r) = Inr c \<Longrightarrow> ServerAddr r = [] \<Longrightarrow> \<not> AutoFindAddr r \<Longrightarrow>
   SubMain RuntimeKeepalive uuid NewEtcdClient GetUnusedAddr r
     = Aborted ''The service startup address is empty, please set -s ip:port''"
  by (simp add: SubMain_def init_def registerGateNode_def getAddress_def Let_def)

text \<open>
  With an address to listen on and a client, start-up always goes on to serve, whatever
  the registration returned.
\<close>

lemma SubMain_serves_with_an_address:
  "NewEtcdClient (EtcdAddr r) = Inr c \<Longrightarrow> ServerAddr r \<noteq> [] \<Longrightarrow>
   \<exists>r' c'. SubMain RuntimeKeepalive uuid NewEtcdClient GetUnusedAddr r = Serving r' c'"
  by (simp add: SubMain_def init_def registerGateNode_def getAddress_def Let_def
      split: prod.splits sum.splits)

text \<open>
  C6 does not hold of the code. \<open>stopTask\<close> has an empty body: the stored task state is
  left as it is (its action is not set to stop), nothing is sent to a worker, and no
  response is written. No record is deleted either.
\<close>

theorem stopTask_changes_nothing:
  "stopTask
     \<lparr>kvs = [\<lparr>Key = ''/scheduler/task/global/build-1'', CreateRevision = 2, ModRevision = 2,
                Version = 1, Value = ''{}'', Lease = 0\<rparr>,
               \<lparr>Key = ''/scheduler/task/state/build-1'', CreateRevision = 2, ModRevision = 2,
                Version = 1, Value = ''CanRun'', Lease = 0\<rparr>],
        revision = 2, leases = [], faults = []\<rparr>
     ''build-1''
   = (Returned NoBody,
      \<lparr>kvs = [\<lparr>Key = ''/scheduler/task/global/build-1'', CreateRevision = 2, ModRevision = 2,
                Version = 1, Value = ''{}'', Lease = 0\<rparr>,
               \<lparr>Key = ''/scheduler/task/state/build-1'', CreateRevision = 2, ModRevision = 2,
                Version = 1, Value = ''CanRun'', Lease = 0\<rparr>],
        revision = 2, leases = [], faults = []\<rparr>)"
  by (simp add: stopTask_def)

text \<open>
  C7 does not hold of the code. \<open>init\<close> raises a lease time only when it is strictly
  below \<open>RuntimeKeepalive\<close>: a configured lease time equal to the keepalive interval is
  kept, so the lease time in effect is not strictly greater than the interval.
\<close>

theorem init_keeps_lease_time_equal_to_keepalive:
  "LeaseTime (fst (init RuntimeKeepalive uuid NewEtcdClient (r\<lparr>LeaseTime := RuntimeKeepalive\<rparr>)))
     = RuntimeKeepalive"
  by (simp add: init_def Let_def)

text \<open>
  What \<open>init\<close> does with the other lease times: a shorter one is raised to one second
  above the keepalive interval, which is strictly above it; a longer one is kept.
\<close>

lemma init_raises_short_lease_time:
  "LeaseTime r <s RuntimeKeepalive \<Longrightarrow>
   LeaseTime (fst (init RuntimeKeepalive uuid NewEtcdClient r)) = RuntimeKeepalive + Second"
  by (simp add: init_def Let_def)

lemma init_keeps_long_lease_time:
  "\<not> LeaseTime r <s RuntimeKeepalive \<Longrightarrow>
   LeaseTime (fst (init RuntimeKeepalive uuid NewEtcdClient r)) = LeaseTime r"
  by (simp add: init_def Let_def)

lemma keepalive_below_clamp:
  assumes "sint (RuntimeKeepalive :: 64 word) < 2 ^ 63 - 1000000000"
  shows "RuntimeKeepalive <s RuntimeKeepalive + Second"
proof -
  have s: "sint Second = 1000000000"
    by (simp add: Second_def)
  have lo: "- (2 ^ 63) \<le> sint RuntimeKeepalive"
    using sint_ge [of RuntimeKeepalive] by simp
  have "sint (RuntimeKeepalive + Second) = sint RuntimeKeepalive + sint Second"
    using assms lo s
    by (simp add: sint_word_add signed_take_bit_int_eq_self)
  with s show ?thesis
    by (simp add: word_sless_alt)
qed

lemma init_raises_short_lease_time_above:
  "LeaseTime r <s RuntimeKeepalive \<Longrightarrow> sint RuntimeKeepalive < 2 ^ 63 - 1000000000 \<Longrightarrow>
   RuntimeKeepalive <s LeaseTime (fst (init RuntimeKeepalive uuid NewEtcdClient r))"
  by (simp add: init_def Let_def keepalive_below_clamp)

end
